theory Spec2Isabelle
  imports Main
begin

section \<open>Strings that cross into SQL text\<close>

text \<open>
  The pipeline scripts build SQL text in TypeScript and hand it to the DuckDB command line.
  A caller-supplied value is embedded as \<^verbatim>\<open>'${sqlStringLiteral(value)}'\<close>.
  Strings are modelled as \<^typ>\<open>string\<close>; the only character either side treats specially is
  the ASCII single quote, so the width of the other characters plays no role.
\<close>

definition quote :: char where
  "quote = CHR 0x27"

text \<open>\<^verbatim>\<open>s.replaceAll("'", "''")\<close>: every single quote is replaced by two.\<close>

definition sqlStringLiteral :: "string \<Rightarrow> string" where
  "sqlStringLiteral s = concat (map (\<lambda>c. if c = quote then [quote, quote] else [c]) s)"

text \<open>\<^verbatim>\<open>sqlStringLiteral(p.replaceAll("\\", "/"))\<close>.\<close>

definition sqlPath :: "string \<Rightarrow> string" where
  "sqlPath p = sqlStringLiteral (map (\<lambda>c. if c = CHR 0x5C then CHR ''/'' else c) p)"

text \<open>The template \<^verbatim>\<open>'${sqlStringLiteral(s)}'\<close>.\<close>

definition quoted :: "string \<Rightarrow> string" where
  "quoted s = quote # sqlStringLiteral s @ [quote]"

text \<open>
  The engine's reading of a quoted string constant. After the opening quote, two quotes in
  a row stand for one quote character, a single quote ends the constant, and every other
  character stands for itself. The result is the value and the text left after the
  constant; a constant that is never closed is an error.
\<close>

fun lex_body :: "string \<Rightarrow> (string \<times> string) option" where
  "lex_body [] = None"
| "lex_body [c] = (if c = quote then Some ([], []) else None)"
| "lex_body (c # d # cs) =
     (if c = quote then
        (if d = quote then map_option (\<lambda>(v, r). (quote # v, r)) (lex_body cs)
         else Some ([], d # cs))
      else map_option (\<lambda>(v, r). (c # v, r)) (lex_body (d # cs)))"

definition sql_string_constant :: "string \<Rightarrow> (string \<times> string) option" where
  "sql_string_constant txt =
     (case txt of [] \<Rightarrow> None | c # cs \<Rightarrow> if c = quote then lex_body cs else None)"

fun strip_prefix :: "string \<Rightarrow> string \<Rightarrow> string option" where
  "strip_prefix [] s = Some s"
| "strip_prefix (p # ps) [] = None"
| "strip_prefix (p # ps) (c # cs) = (if p = c then strip_prefix ps cs else None)"

section \<open>Tables\<close>

text \<open>
  Every column of a DuckDB table may hold NULL, written \<^const>\<open>None\<close>. A table is the list
  of its rows, and \<^verbatim>\<open>rowid\<close> is the position of a row in that list.
\<close>

record date =
  date_year :: int
  date_month :: nat
  date_day :: nat

text \<open>
  The columns that the export selects from \<^verbatim>\<open>games\<close>; \<^verbatim>\<open>DataSource\<close> is the column
  that enrichment adds. SQL identifiers are case-insensitive: \<^verbatim>\<open>eco\<close> in the update is
  the column \<^verbatim>\<open>ECO\<close>.
\<close>

record game_cols =
  Event :: "string option"
  Site :: "string option"
  White :: "string option"
  Black :: "string option"
  Result :: "string option"
  WhiteTitle :: "string option"
  BlackTitle :: "string option"
  WhiteElo :: "nat option"
  BlackElo :: "nat option"
  UTCDate :: "date option"
  UTCTime :: "string option"
  ECO :: "string option"
  Opening :: "string option"
  Termination :: "string option"
  TimeControl :: "string option"
  Source :: "string option"
  movetext :: "string option"
  DataSource :: "string option"

text \<open>A row of \<^verbatim>\<open>games\<close> as \<^verbatim>\<open>read-pgn.ts\<close> creates it.\<close>

record game = game_cols +
  parse_error :: "string option"
  clean_movetext :: "string option"

text \<open>A row of \<^verbatim>\<open>combined\<close>.\<close>

record combined_row = game_cols +
  year :: "int option"
  month :: "string option"

text \<open>A row of the catalogue table \<^verbatim>\<open>openings.openings\<close>.\<close>

record opening_entry =
  eco :: "string option"
  name :: "string option"
  uci :: "string option"
  pgn :: "string option"

record opening_with_ply = opening_entry +
  opening_ply :: "nat option"

section \<open>SQL expressions\<close>

text \<open>
  A predicate evaluates to TRUE, FALSE or NULL; \<^verbatim>\<open>WHERE\<close> keeps a row when it is TRUE.
\<close>

definition holds :: "bool option \<Rightarrow> bool" where
  "holds b = (b = Some True)"

definition is_null :: "'a option \<Rightarrow> bool option" where
  "is_null x = Some (x = None)"

definition is_not_null :: "'a option \<Rightarrow> bool option" where
  "is_not_null x = Some (x \<noteq> None)"

definition sql_and :: "bool option \<Rightarrow> bool option \<Rightarrow> bool option" where
  "sql_and a b =
     (if a = Some False \<or> b = Some False then Some False
      else if a = Some True \<and> b = Some True then Some True
      else None)"

definition sql_ge :: "int option \<Rightarrow> int option \<Rightarrow> bool option" where
  "sql_ge a b = (case (a, b) of (Some x, Some y) \<Rightarrow> Some (y \<le> x) | _ \<Rightarrow> None)"

text \<open>\<^verbatim>\<open>year(d)\<close> and \<^verbatim>\<open>strftime(d, '%m')\<close>, the month as two decimal digits.\<close>

definition sql_year :: "date option \<Rightarrow> int option" where
  "sql_year d = map_option date_year d"

definition digit :: "nat \<Rightarrow> char" where
  "digit n = ''0123456789'' ! (n mod 10)"

definition strftime_m :: "date option \<Rightarrow> string option" where
  "strftime_m d = map_option (\<lambda>x. [digit (date_month x div 10), digit (date_month x)]) d"

text \<open>
  \<^verbatim>\<open>CONTAINS(string, search)\<close>: whether \<^verbatim>\<open>search\<close> is found in \<^verbatim>\<open>string\<close>, tried at
  each position from the left; NULL when either argument is NULL.
\<close>

fun starts_with :: "string \<Rightarrow> string \<Rightarrow> bool" where
  "starts_with s [] = True"
| "starts_with [] (n # ns) = False"
| "starts_with (c # cs) (n # ns) = (c = n \<and> starts_with cs ns)"

fun found_in :: "string \<Rightarrow> string \<Rightarrow> bool" where
  "found_in [] search = starts_with [] search"
| "found_in (c # cs) search = (starts_with (c # cs) search \<or> found_in cs search)"

definition CONTAINS :: "string option \<Rightarrow> string option \<Rightarrow> bool option" where
  "CONTAINS s search =
     (case (s, search) of (Some a, Some b) \<Rightarrow> Some (found_in a b) | _ \<Rightarrow> None)"

text \<open>
  \<^verbatim>\<open>string_split(s, ' ')\<close> cuts at every separator and keeps empty pieces, and
  \<^verbatim>\<open>array_length\<close> counts the pieces.
\<close>

fun string_split :: "string \<Rightarrow> char \<Rightarrow> string list" where
  "string_split [] sep = [[]]"
| "string_split (c # cs) sep =
     (if c = sep then [] # string_split cs sep
      else (case string_split cs sep of [] \<Rightarrow> [[c]] | p # ps \<Rightarrow> (c # p) # ps))"

definition array_length :: "'a list \<Rightarrow> nat" where
  "array_length xs = length xs"

section \<open>The opening classifier (find-openings.ts)\<close>

text \<open>
  \<^verbatim>\<open>SELECT array_length(string_split(uci, ' ')) AS opening_ply, o.* FROM openings.openings o\<close>
\<close>

definition with_ply :: "opening_entry \<Rightarrow> opening_with_ply" where
  "with_ply e =
     \<lparr>eco = eco e, name = name e, uci = uci e, pgn = pgn e,
      opening_ply = map_option (\<lambda>u. array_length (string_split u CHR '' '')) (uci e)\<rparr>"

definition openings_with_ply :: "opening_entry list \<Rightarrow> opening_with_ply list" where
  "openings_with_ply openings = map with_ply openings"

text \<open>\<^verbatim>\<open>SELECT rowid as game_id, * FROM games WHERE Opening IS NULL\<close>\<close>

definition target :: "game list \<Rightarrow> (nat \<times> game) list" where
  "target games = filter (\<lambda>(game_id, g). holds (is_null (Opening g))) (enumerate 0 games)"

text \<open>
  \<^verbatim>\<open>ORDER BY o.opening_ply DESC\<close>. DuckDB puts NULL keys last. The engine does not fix
  the order of rows with equal keys; here they keep the order in which the catalogue is
  scanned, and the catalogue is an arbitrary list.
\<close>

definition sorts_before :: "nat option \<Rightarrow> nat option \<Rightarrow> bool" where
  "sorts_before a b =
     (case a of None \<Rightarrow> False
      | Some x \<Rightarrow> (case b of None \<Rightarrow> True | Some y \<Rightarrow> y < x))"

fun insert_desc :: "opening_with_ply \<Rightarrow> opening_with_ply list \<Rightarrow> opening_with_ply list" where
  "insert_desc x [] = [x]"
| "insert_desc x (y # ys) =
     (if sorts_before (opening_ply y) (opening_ply x) then y # insert_desc x ys
      else x # y # ys)"

definition order_by_opening_ply_desc :: "opening_with_ply list \<Rightarrow> opening_with_ply list" where
  "order_by_opening_ply_desc rows = foldr insert_desc rows []"

text \<open>\<^verbatim>\<open>WHERE CONTAINS(t.clean_movetext, o.pgn)\<close>\<close>

definition matches :: "game \<Rightarrow> opening_with_ply \<Rightarrow> bool" where
  "matches t e = holds (CONTAINS (clean_movetext t) (pgn e))"

text \<open>
  The lateral subquery, evaluated for one row \<^verbatim>\<open>t\<close> of \<^verbatim>\<open>target\<close>:
  \<^verbatim>\<open>SELECT o.eco, o.name FROM openings_with_ply o WHERE ... ORDER BY ... LIMIT 1\<close>
\<close>

definition candidates :: "opening_with_ply list \<Rightarrow> game \<Rightarrow> opening_with_ply list" where
  "candidates owp t = filter (matches t) owp"

definition lateral :: "opening_with_ply list \<Rightarrow> game \<Rightarrow> (string option \<times> string option) list" where
  "lateral owp t =
     map (\<lambda>e. (eco e, name e)) (take 1 (order_by_opening_ply_desc (candidates owp t)))"

text \<open>\<^verbatim>\<open>FROM target t JOIN LATERAL (...) o ON TRUE\<close>: each target row with each row of its subquery.\<close>

definition joined :: "opening_with_ply list \<Rightarrow> (nat \<times> game) list
    \<Rightarrow> (nat \<times> string option \<times> string option) list" where
  "joined owp tgt = concat (map (\<lambda>(game_id, t). map (\<lambda>r. (game_id, r)) (lateral owp t)) tgt)"

text \<open>
  \<^verbatim>\<open>UPDATE games m SET eco = o.eco, Opening = o.name FROM ... WHERE m.rowid = t.game_id\<close>:
  a row of \<^verbatim>\<open>games\<close> that has a joined row is overwritten from it, the others stay.
\<close>

definition update_games :: "(nat \<times> string option \<times> string option) list \<Rightarrow> game list \<Rightarrow> game list" where
  "update_games j games =
     map (\<lambda>(rowid, m).
            case find (\<lambda>(game_id, r). rowid = game_id) j of
              None \<Rightarrow> m
            | Some (game_id, e, n) \<Rightarrow> m\<lparr>ECO := e, Opening := n\<rparr>)
         (enumerate 0 games)"

definition classify_openings :: "opening_entry list \<Rightarrow> game list \<Rightarrow> game list" where
  "classify_openings openings games =
     update_games (joined (openings_with_ply openings) (target games)) games"

section \<open>Files and directories\<close>

text \<open>
  A path is the list of its segments, resolved; \<^verbatim>\<open>join(dir, name)\<close> adds segments at the
  end, and \<^verbatim>\<open>relative(from, to)\<close> drops the segments that both share and climbs out of
  what is left of \<^verbatim>\<open>from\<close>.
\<close>

type_synonym path = "string list"

definition join :: "path \<Rightarrow> path \<Rightarrow> path" where
  "join a b = a @ b"

fun relative :: "path \<Rightarrow> path \<Rightarrow> path" where
  "relative [] to = to"
| "relative (a # as) [] = replicate (Suc (length as)) ''..''"
| "relative (a # as) (b # bs) =
     (if a = b then relative as bs else replicate (Suc (length as)) ''..'' @ b # bs)"

text \<open>What \<^verbatim>\<open>readdirSync(dir, { withFileTypes: true })\<close> reports, with the entries below a directory.\<close>

datatype dirent = File string | Directory string "dirent list" | Other string

definition toLowerCase :: "string \<Rightarrow> string" where
  "toLowerCase s =
     map (\<lambda>c. case map_of (zip ''ABCDEFGHIJKLMNOPQRSTUVWXYZ'' ''abcdefghijklmnopqrstuvwxyz'') c of
                None \<Rightarrow> c | Some l \<Rightarrow> l) s"

definition endsWith :: "string \<Rightarrow> string \<Rightarrow> bool" where
  "endsWith s searchString = starts_with (rev s) (rev searchString)"

fun listFilesByExtensionRecursively :: "path \<Rightarrow> dirent list \<Rightarrow> string \<Rightarrow> path list"
  and listEntry :: "path \<Rightarrow> dirent \<Rightarrow> string \<Rightarrow> path list" where
  "listFilesByExtensionRecursively dir [] extLower = []"
| "listFilesByExtensionRecursively dir (ent # entries) extLower =
     listEntry dir ent extLower @ listFilesByExtensionRecursively dir entries extLower"
| "listEntry dir (Directory n sub) extLower =
     listFilesByExtensionRecursively (join dir [n]) sub extLower"
| "listEntry dir (File n) extLower =
     (if endsWith (toLowerCase n) extLower then [join dir [n]] else [])"
| "listEntry dir (Other n) extLower = []"

text \<open>
  A DuckDB file holds tables; the ones the pipeline names are \<^verbatim>\<open>games\<close> and
  \<^verbatim>\<open>openings\<close>. The files on disk are a map from paths.
\<close>

record database =
  tbl_games :: "game list option"
  tbl_openings :: "opening_entry list option"

type_synonym files = "path \<rightharpoonup> database"

datatype error = UsageError | NoFilesFound | FileError | EngineError

text \<open>\<^verbatim>\<open>!value\<close> for an optional string: absent or empty.\<close>

definition falsy :: "'a list option \<Rightarrow> bool" where
  "falsy v = (case v of None \<Rightarrow> True | Some s \<Rightarrow> s = [])"

record Args =
  inDir :: "path option"
  outDir :: "path option"
  dataSource :: "string option"
  key :: "string option"

section \<open>The source enricher (find-openings.ts)\<close>

record find_openings_args = Args +
  openingsDb :: "path option"

text \<open>\<^verbatim>\<open>UPDATE games SET DataSource = '${sqlStringLiteral(args.dataSource)}';\<close> and its execution.\<close>

definition update_DataSource_sql :: "string \<Rightarrow> string" where
  "update_DataSource_sql ds = ''UPDATE games SET DataSource = '' @ quoted ds @ '';''"

definition exec_update_DataSource :: "string \<Rightarrow> game list \<Rightarrow> error + game list" where
  "exec_update_DataSource sql games =
     (case strip_prefix ''UPDATE games SET DataSource = '' sql of
        None \<Rightarrow> Inl EngineError
      | Some rest \<Rightarrow>
          (case sql_string_constant rest of
             None \<Rightarrow> Inl EngineError
           | Some (v, rest') \<Rightarrow>
               if rest' = '';'' then Inr (map (\<lambda>g. g\<lparr>DataSource := Some v\<rparr>) games)
               else Inl EngineError))"

text \<open>
  The script run by one \<^verbatim>\<open>duckdb\<close> call on the working copy: the \<^verbatim>\<open>DataSource\<close> update on
  \<^verbatim>\<open>games\<close>, the catalogue attached read-only, the classifying update. A statement that
  names a missing table, or a catalogue file that cannot be opened, ends the call with an
  error, and the statements before it have taken effect.
  \<^verbatim>\<open>ALTER TABLE games ADD COLUMN IF NOT EXISTS DataSource VARCHAR\<close> adds the column with
  NULL in every row, and a table without the column is read here as one with NULL in it;
  \<^verbatim>\<open>LOAD chess\<close> and \<^verbatim>\<open>DETACH openings\<close> change no table.
\<close>

definition run_enrichment :: "string \<Rightarrow> database option \<Rightarrow> database \<Rightarrow> error option \<times> database" where
  "run_enrichment ds catalogue db =
     (case tbl_games db of
        None \<Rightarrow> (Some EngineError, db)
      | Some games \<Rightarrow>
          (case exec_update_DataSource (update_DataSource_sql ds) games of
             Inl e \<Rightarrow> (Some e, db)
           | Inr tagged \<Rightarrow>
               (case catalogue of
                  None \<Rightarrow> (Some EngineError, db\<lparr>tbl_games := Some tagged\<rparr>)
                | Some c \<Rightarrow>
                    (case tbl_openings c of
                       None \<Rightarrow> (Some EngineError, db\<lparr>tbl_games := Some tagged\<rparr>)
                     | Some entries \<Rightarrow>
                         (None, db\<lparr>tbl_games := Some (classify_openings entries tagged)\<rparr>)))))"

text \<open>\<^verbatim>\<open>copyFileSync(srcDb, dstDb)\<close> fails when there is no file at the source.\<close>

definition copyFileSync :: "path \<Rightarrow> path \<Rightarrow> files \<Rightarrow> error + files" where
  "copyFileSync src dst fs =
     (case fs src of None \<Rightarrow> Inl FileError | Some d \<Rightarrow> Inr (fs(dst \<mapsto> d)))"

text \<open>
  \<^verbatim>\<open>duckdb ${dstDb} -c ${sql}\<close>: the script runs on the file at \<^verbatim>\<open>dstDb\<close>, which is created
  empty when it does not exist, with the catalogue read from the file at \<^verbatim>\<open>openingsDb\<close>.
  The result is the error of the call, if any, and the files as the call leaves them.
\<close>

definition duckdb_enrich :: "string \<Rightarrow> path \<Rightarrow> path \<Rightarrow> files \<Rightarrow> error option \<times> files" where
  "duckdb_enrich ds cat_path dstDb fs =
     (let db = (case fs dstDb of None \<Rightarrow> \<lparr>tbl_games = None, tbl_openings = None\<rparr> | Some d \<Rightarrow> d)
      in case run_enrichment ds (fs cat_path) db of
           (err, db') \<Rightarrow> (err, fs(dstDb \<mapsto> db')))"

text \<open>
  The loop \<^verbatim>\<open>for (const srcDb of dbs)\<close>; an error ends it. The file map holds no
  directories, so the \<^verbatim>\<open>mkdirSync\<close> calls have nothing to change.
\<close>

fun enrich_stores ::
    "path \<Rightarrow> path \<Rightarrow> path \<Rightarrow> string \<Rightarrow> path list \<Rightarrow> files \<Rightarrow> error option \<times> files" where
  "enrich_stores ind outd cat_path ds [] fs = (None, fs)"
| "enrich_stores ind outd cat_path ds (srcDb # dbs) fs =
     (let rel = relative ind srcDb;
          dstDb = join outd rel
      in case copyFileSync srcDb dstDb fs of
           Inl e \<Rightarrow> (Some e, fs)
         | Inr copied \<Rightarrow>
             (case duckdb_enrich ds cat_path dstDb copied of
                (Some e, enriched) \<Rightarrow> (Some e, enriched)
              | (None, enriched) \<Rightarrow> enrich_stores ind outd cat_path ds dbs enriched))"

text \<open>
  The script: usage check, listing, loop. The result is the error that ended the run, if
  any, and the files as the run leaves them.
\<close>

definition find_openings ::
    "find_openings_args \<Rightarrow> dirent list \<Rightarrow> files \<Rightarrow> error option \<times> files" where
  "find_openings args tree fs =
     (if falsy (inDir args) \<or> falsy (outDir args) \<or> falsy (openingsDb args)
         \<or> falsy (dataSource args)
      then (Some UsageError, fs)
      else
        (case (inDir args, outDir args, openingsDb args, dataSource args) of
           (Some ind, Some outd, Some cat_path, Some ds) \<Rightarrow>
             (let dbs = listFilesByExtensionRecursively ind tree ''.duckdb''
              in if dbs = [] then (Some NoFilesFound, fs)
                 else enrich_stores ind outd cat_path ds dbs fs)
         | _ \<Rightarrow> (Some UsageError, fs)))"

section \<open>The consolidator (export-to-parquet.ts)\<close>

record export_args = Args +
  outDb :: "path option"

text \<open>\<^verbatim>\<open>dbs.sort((a, b) => a.localeCompare(b))\<close>, a stable sort; the comparison is a parameter.\<close>

fun insert_sorted :: "('a \<Rightarrow> 'a \<Rightarrow> int) \<Rightarrow> 'a \<Rightarrow> 'a list \<Rightarrow> 'a list" where
  "insert_sorted cmp x [] = [x]"
| "insert_sorted cmp x (y # ys) =
     (if cmp x y \<le> 0 then x # y # ys else y # insert_sorted cmp x ys)"

definition sort_with :: "('a \<Rightarrow> 'a \<Rightarrow> int) \<Rightarrow> 'a list \<Rightarrow> 'a list" where
  "sort_with cmp xs = foldr (insert_sorted cmp) xs []"

text \<open>\<^verbatim>\<open>const dataSource = args.dataSource ?? args.key;\<close>\<close>

definition dataSource_or_key :: "'a Args_scheme \<Rightarrow> string option" where
  "dataSource_or_key args = (case dataSource args of None \<Rightarrow> key args | Some d \<Rightarrow> Some d)"

text \<open>
  The line of the select list that yields \<^verbatim>\<open>DataSource\<close>:
  \<^verbatim>\<open>dataSource ? `  '${sqlStringLiteral(dataSource)}' AS DataSource,` : "  DataSource,"\<close>
\<close>

definition dataSourceSelect :: "string option \<Rightarrow> string" where
  "dataSourceSelect ds =
     (if falsy ds then ''  DataSource,''
      else (case ds of None \<Rightarrow> ''  DataSource,''
            | Some d \<Rightarrow> ''  '' @ quoted d @ '' AS DataSource,''))"

text \<open>The engine's reading of that line: the column itself, or a string constant under its name.\<close>

definition eval_dataSourceSelect :: "string \<Rightarrow> (game \<Rightarrow> string option) option" where
  "eval_dataSourceSelect line =
     (case strip_prefix ''  '' line of
        None \<Rightarrow> None
      | Some item \<Rightarrow>
          if item = ''DataSource,'' then Some DataSource
          else (case sql_string_constant item of
                  None \<Rightarrow> None
                | Some (v, rest) \<Rightarrow>
                    if rest = '' AS DataSource,'' then Some (\<lambda>g. Some v) else None))"

text \<open>\<^verbatim>\<open>WHERE UTCDate IS NOT NULL AND year(UTCDate) >= 1500\<close>\<close>

definition export_where :: "game \<Rightarrow> bool" where
  "export_where g =
     holds (sql_and (is_not_null (UTCDate g)) (sql_ge (sql_year (UTCDate g)) (Some 1500)))"

text \<open>The select list, in the order of the source.\<close>

definition select_row :: "(game \<Rightarrow> string option) \<Rightarrow> game \<Rightarrow> combined_row" where
  "select_row label g =
     \<lparr>Event = Event g, Site = Site g, White = White g, Black = Black g, Result = Result g,
      WhiteTitle = WhiteTitle g, BlackTitle = BlackTitle g, WhiteElo = WhiteElo g,
      BlackElo = BlackElo g, UTCDate = UTCDate g, UTCTime = UTCTime g, ECO = ECO g,
      Opening = Opening g, Termination = Termination g, TimeControl = TimeControl g,
      Source = Source g, movetext = movetext g, DataSource = label g,
      year = sql_year (UTCDate g), month = strftime_m (UTCDate g)\<rparr>"

definition select_from_src :: "string \<Rightarrow> game list \<Rightarrow> error + combined_row list" where
  "select_from_src line games =
     (case eval_dataSourceSelect line of
        None \<Rightarrow> Inl EngineError
      | Some label \<Rightarrow> Inr (map (select_row label) (filter export_where games)))"

type_synonym partition_key = "string option \<times> int option \<times> string option"

definition partition_of :: "combined_row \<Rightarrow> partition_key" where
  "partition_of r = (DataSource r, year r, month r)"

text \<open>
  \<^verbatim>\<open>PARTITION_BY (DataSource, year, month)\<close>: one directory for each key that occurs, with
  the rows of that key.
\<close>

definition partition_by :: "combined_row list \<Rightarrow> (partition_key \<times> combined_row list) list" where
  "partition_by rows =
     map (\<lambda>k. (k, filter (\<lambda>r. partition_of r = k) rows)) (remdups (map partition_of rows))"

subsection \<open>The disk\<close>

text \<open>
  The consolidator reads, deletes and writes on one disk, so the stores, the working
  database and the output directory are entries of one structure. A DuckDB file holds the
  tables of \<^typ>\<open>database\<close>, the note whether \<^verbatim>\<open>games\<close> has the column \<^verbatim>\<open>DataSource\<close> (a
  store that was never enriched has not), and the table \<^verbatim>\<open>combined\<close>.
\<close>

record duckdb_file = database +
  games_DataSource :: bool
  tbl_combined :: "combined_row list option"

text \<open>
  What lies at a path: a regular file that is a DuckDB database, another regular file, or
  the partition directories, with their rows, that a partitioned \<^verbatim>\<open>COPY\<close> wrote into the
  directory at that path. \<^verbatim>\<open>folders\<close> lists directories that exist without holding any of
  these, as \<^verbatim>\<open>mkdirSync\<close> leaves them.
\<close>

datatype disk_entry =
  Duck duckdb_file | Plain | Partitioned "(partition_key \<times> combined_row list) list"

record disk =
  nodes :: "(path \<times> disk_entry) list"
  folders :: "path list"

text \<open>\<open>below dir p\<close>: the path \<open>p\<close> is \<open>dir\<close> or lies under it.\<close>

fun below :: "path \<Rightarrow> path \<Rightarrow> bool" where
  "below [] p = True"
| "below (d # ds) [] = False"
| "below (d # ds) (x # xs) = (d = x \<and> below ds xs)"

definition file_at :: "disk \<Rightarrow> path \<Rightarrow> disk_entry option" where
  "file_at d p = map_of (nodes d) p"

fun is_regular :: "disk_entry \<Rightarrow> bool" where
  "is_regular (Duck f) = True"
| "is_regular Plain = True"
| "is_regular (Partitioned ps) = False"

text \<open>A path is a directory when something lies under it or a partitioned copy was written into it.\<close>

definition is_directory :: "disk \<Rightarrow> path \<Rightarrow> bool" where
  "is_directory d p =
     (list_ex (\<lambda>q. below p q) (folders d)
      \<or> list_ex (\<lambda>(q, e). below p q \<and> (q \<noteq> p \<or> \<not> is_regular e)) (nodes d))"

definition put :: "path \<Rightarrow> disk_entry \<Rightarrow> disk \<Rightarrow> disk" where
  "put p e d = d\<lparr>nodes := (p, e) # filter (\<lambda>(q, x). q \<noteq> p) (nodes d)\<rparr>"

text \<open>
  What \<^verbatim>\<open>readdirSync\<close> reports below a directory, built from the regular files that lie
  under it, given by their paths relative to it: a name is a file when a file has just
  that name, and a directory with the rest of the paths that start with it otherwise.
  Directories that hold no regular file add nothing to a listing of files and are left
  out; the files of a partitioned copy are named \<^verbatim>\<open>data_*.parquet\<close>, never \<^verbatim>\<open>*.duckdb\<close>.
\<close>

function readdir_tree :: "path list \<Rightarrow> dirent list" where
  "readdir_tree rels =
     map (\<lambda>n. if [n] \<in> set rels then File n
              else Directory n
                     (readdir_tree (map tl (filter (\<lambda>r. r \<noteq> [] \<and> hd r = n \<and> tl r \<noteq> []) rels))))
         (remdups (map hd (filter (\<lambda>r. r \<noteq> []) rels)))"
  by pat_completeness auto
termination
proof (relation "measure (\<lambda>rels. sum_list (map length rels))")
  show "wf (measure (\<lambda>rels. sum_list (map length rels)))" by simp
next
  fix rels :: "path list" and n
  assume "n \<in> set (remdups (map hd (filter (\<lambda>r. r \<noteq> []) rels)))"
  then obtain r where r: "r \<in> set rels" "r \<noteq> []" by auto
  let ?P = "\<lambda>r. r \<noteq> [] \<and> hd r = n \<and> tl r \<noteq> []"
  have le: "sum_list (map length (map tl (filter ?P xs))) \<le> sum_list (map length xs)"
    for xs :: "path list"
    by (induction xs) auto
  have "r \<in> set xs \<Longrightarrow> sum_list (map length (map tl (filter ?P xs))) < sum_list (map length xs)"
    for xs :: "path list"
  proof (induction xs)
    case Nil
    then show ?case by simp
  next
    case (Cons x xs)
    show ?case
    proof (cases "x = r")
      case True
      then have "length (tl x) < length x" using r(2) by (cases x) auto
      moreover have "sum_list (map length (map tl (filter ?P (x # xs))))
          \<le> length (tl x) + sum_list (map length (map tl (filter ?P xs)))" by simp
      moreover have "sum_list (map length (x # xs)) = length x + sum_list (map length xs)" by simp
      ultimately show ?thesis using le [of xs] by linarith
    next
      case False
      then have "r \<in> set xs" using Cons.prems by simp
      then show ?thesis using Cons.IH by auto
    qed
  qed
  then show "(map tl (filter ?P rels), rels) \<in> measure (\<lambda>rels. sum_list (map length rels))"
    using r(1) by simp
qed

definition regular_below :: "disk \<Rightarrow> path \<Rightarrow> path list" where
  "regular_below d dir =
     map (\<lambda>(p, e). drop (length dir) p)
         (filter (\<lambda>(p, e). below dir p \<and> p \<noteq> dir \<and> is_regular e) (nodes d))"

subsection \<open>The calls of node:fs\<close>

text \<open>\<^verbatim>\<open>rmSync(p, { recursive: true, force: true })\<close> removes what is at \<open>p\<close> and under it.\<close>

definition rmSync_recursive :: "path \<Rightarrow> disk \<Rightarrow> disk" where
  "rmSync_recursive p d =
     d\<lparr>nodes := filter (\<lambda>(q, e). \<not> below p q) (nodes d),
       folders := filter (\<lambda>q. \<not> below p q) (folders d)\<rparr>"

text \<open>\<^verbatim>\<open>mkdirSync(p, { recursive: true })\<close> fails when a regular file lies on the way.\<close>

definition mkdirSync :: "path \<Rightarrow> disk \<Rightarrow> error + disk" where
  "mkdirSync p d =
     (if list_ex (\<lambda>(q, e). is_regular e \<and> below q p) (nodes d) then Inl FileError
      else Inr (d\<lparr>folders := p # folders d\<rparr>))"

text \<open>\<^verbatim>\<open>rmSync(p, { force: true })\<close> removes a file, ignores a missing one and fails on a directory.\<close>

definition rmSync_force :: "path \<Rightarrow> disk \<Rightarrow> error + disk" where
  "rmSync_force p d =
     (if is_directory d p then Inl FileError
      else Inr (d\<lparr>nodes := filter (\<lambda>(q, e). q \<noteq> p) (nodes d)\<rparr>))"

definition dirname :: "path \<Rightarrow> path" where
  "dirname p = butlast p"

subsection \<open>Paths in SQL text\<close>

text \<open>
  A path is handed to the engine as \<^verbatim>\<open>'${sqlPath(p)}'\<close>. The path is written with \<^verbatim>\<open>/\<close>
  before each segment; the engine reads the constant back and opens the path that the
  text names, cut at every \<^verbatim>\<open>/\<close>. A segment that holds a backslash thus names another
  path than the one listed. (Where the backslash is the separator, no segment holds
  one, and both separators name the same file.)
\<close>

definition render :: "path \<Rightarrow> string" where
  "render p = concat (map (\<lambda>s. CHR ''/'' # s) p)"

definition segments :: "string \<Rightarrow> path" where
  "segments s = filter (\<lambda>x. x \<noteq> []) (string_split s CHR ''/'')"

definition engine_path :: "path \<Rightarrow> path option" where
  "engine_path p =
     (case sql_string_constant (quote # sqlPath (render p) @ [quote]) of
        None \<Rightarrow> None
      | Some (v, rest) \<Rightarrow> if rest = [] then Some (segments v) else None)"

subsection \<open>The calls of duckdb\<close>

text \<open>
  \<^verbatim>\<open>duckdb ${args.outDb}\<close> opens the database at that path and creates an empty one when
  nothing is there; a directory or a file of another kind cannot be opened.
\<close>

definition empty_file :: duckdb_file where
  "empty_file =
     \<lparr>tbl_games = None, tbl_openings = None, games_DataSource = False, tbl_combined = None\<rparr>"

definition open_database :: "disk \<Rightarrow> path \<Rightarrow> error + duckdb_file" where
  "open_database d p =
     (case file_at d p of
        None \<Rightarrow> if is_directory d p then Inl EngineError else Inr empty_file
      | Some (Duck f) \<Rightarrow> Inr f
      | Some Plain \<Rightarrow> Inl EngineError
      | Some (Partitioned ps) \<Rightarrow> Inl EngineError)"

text \<open>
  \<^verbatim>\<open>ATTACH '${sqlPath(db)}' AS src (READ_ONLY)\<close> needs a DuckDB file at the path that the
  text names, other than the database that is already open.
\<close>

definition attach :: "disk \<Rightarrow> path \<Rightarrow> path \<Rightarrow> error + duckdb_file" where
  "attach d main db =
     (case engine_path db of
        None \<Rightarrow> Inl EngineError
      | Some t \<Rightarrow>
          if t = main then Inl EngineError
          else (case file_at d t of
                  Some (Duck f) \<Rightarrow> Inr f
                | _ \<Rightarrow> Inl EngineError))"

text \<open>The select list names the column \<^verbatim>\<open>DataSource\<close> of \<^verbatim>\<open>src.games\<close> when no label is given.\<close>

definition names_column :: "string \<Rightarrow> bool" where
  "names_column line = (strip_prefix ''  '' line = Some ''DataSource,'')"

text \<open>
  One \<^verbatim>\<open>duckdb\<close> call of the loop, on the database at \<^verbatim>\<open>outDb\<close>: the store attached, the
  rows selected from \<^verbatim>\<open>src.games\<close>, which needs the table and every column that the select
  list names, then \<^verbatim>\<open>CREATE TABLE combined AS\<close> for the first store, which needs the table
  to be new, and \<^verbatim>\<open>INSERT INTO combined\<close> for the others, which needs it to exist. The result
  is the error of the call, if any, and the disk as the call leaves it.
\<close>

definition attachAndSelect :: "bool \<Rightarrow> string \<Rightarrow> path \<Rightarrow> path \<Rightarrow> disk \<Rightarrow> error option \<times> disk" where
  "attachAndSelect first line main db d =
     (case open_database d main of
        Inl e \<Rightarrow> (Some e, d)
      | Inr f \<Rightarrow>
          (let opened = put main (Duck f) d
           in case attach opened main db of
                Inl e \<Rightarrow> (Some e, opened)
              | Inr src \<Rightarrow>
                  (case tbl_games src of
                     None \<Rightarrow> (Some EngineError, opened)
                   | Some games \<Rightarrow>
                       if names_column line \<and> \<not> games_DataSource src then (Some EngineError, opened)
                       else
                         (case select_from_src line games of
                            Inl e \<Rightarrow> (Some e, opened)
                          | Inr rows \<Rightarrow>
                              (case tbl_combined f of
                                 None \<Rightarrow>
                                   if first
                                   then (None, put main (Duck (f\<lparr>tbl_combined := Some rows\<rparr>)) d)
                                   else (Some EngineError, opened)
                               | Some old \<Rightarrow>
                                   if first then (Some EngineError, opened)
                                   else (None, put main (Duck (f\<lparr>tbl_combined := Some (old @ rows)\<rparr>)) d))))))"

text \<open>The loop \<^verbatim>\<open>for (const db of dbs)\<close> with its flag \<^verbatim>\<open>first\<close>; an error ends it.\<close>

fun export_stores ::
    "string option \<Rightarrow> path \<Rightarrow> bool \<Rightarrow> path list \<Rightarrow> disk \<Rightarrow> error option \<times> disk" where
  "export_stores ds main first [] d = (None, d)"
| "export_stores ds main first (db # dbs) d =
     (case attachAndSelect first (dataSourceSelect ds) main db d of
        (Some e, d') \<Rightarrow> (Some e, d')
      | (None, d') \<Rightarrow> export_stores ds main False dbs d')"

text \<open>
  \<^verbatim>\<open>COPY combined TO ('${sqlPath(args.outDir)}') (FORMAT PARQUET, PARTITION_BY (...))\<close>, run on
  the database at \<^verbatim>\<open>outDb\<close>. The target is the path that the text names. The engine refuses
  a target that is a regular file or lies under one, and a target directory in which it
  finds a file; it creates the directory when it is missing, and then writes one directory
  for each partition key. Directories without files inside the target do not stop it.
\<close>

definition holds_nothing :: "disk \<Rightarrow> path \<Rightarrow> bool" where
  "holds_nothing d t =
     (\<not> list_ex (\<lambda>(q, e). below t q \<and> (q \<noteq> t \<or> e \<noteq> Partitioned [])) (nodes d))"

definition copy_partitioned :: "path \<Rightarrow> path \<Rightarrow> disk \<Rightarrow> error option \<times> disk" where
  "copy_partitioned main outd d =
     (case open_database d main of
        Inl e \<Rightarrow> (Some e, d)
      | Inr f \<Rightarrow>
          (case tbl_combined f of
             None \<Rightarrow> (Some EngineError, d)
           | Some rows \<Rightarrow>
               (case engine_path outd of
                  None \<Rightarrow> (Some EngineError, d)
                | Some t \<Rightarrow>
                    if holds_nothing d t
                       \<and> \<not> list_ex (\<lambda>(q, e). is_regular e \<and> below q t) (nodes d)
                    then (None, put t (Partitioned (partition_by rows)) d)
                    else (Some EngineError, d))))"

text \<open>
  The script: usage check, listing and sorting, \<^verbatim>\<open>rmSync\<close> and \<^verbatim>\<open>mkdirSync\<close> of the two
  outputs, the loop, the copy. The listing is taken before anything is removed. A missing
  input directory gives an empty listing here and an error of \<^verbatim>\<open>readdirSync\<close> in the script;
  the run ends with an error either way, before anything is changed. The result is the
  error that ended the run, if any, and the disk as the run leaves it.
\<close>

definition listed :: "(path \<Rightarrow> path \<Rightarrow> int) \<Rightarrow> disk \<Rightarrow> path \<Rightarrow> path list" where
  "listed localeCompare d ind =
     sort_with localeCompare
       (listFilesByExtensionRecursively ind (readdir_tree (regular_below d ind)) ''.duckdb'')"

definition export_to_parquet ::
    "export_args \<Rightarrow> (path \<Rightarrow> path \<Rightarrow> int) \<Rightarrow> disk \<Rightarrow> error option \<times> disk" where
  "export_to_parquet args localeCompare d =
     (if falsy (inDir args) \<or> falsy (outDir args) \<or> falsy (outDb args) then (Some UsageError, d)
      else
        (case (inDir args, outDir args, outDb args) of
           (Some ind, Some outd, Some main) \<Rightarrow>
             (let dbs = listed localeCompare d ind
              in if dbs = [] then (Some NoFilesFound, d)
                 else
                   (let removed = rmSync_recursive outd d
                    in case mkdirSync outd removed of
                         Inl e \<Rightarrow> (Some e, removed)
                       | Inr made \<Rightarrow>
                           (case rmSync_force main made of
                              Inl e \<Rightarrow> (Some e, made)
                            | Inr cleared \<Rightarrow>
                                (case mkdirSync (dirname main) cleared of
                                   Inl e \<Rightarrow> (Some e, cleared)
                                 | Inr ready \<Rightarrow>
                                     (case export_stores (dataSource_or_key args) main True dbs ready of
                                        (Some e, d') \<Rightarrow> (Some e, d')
                                      | (None, d') \<Rightarrow> copy_partitioned main outd d')))))
         | _ \<Rightarrow> (Some UsageError, d)))"

section \<open>Auxiliary notions for the proofs\<close>

text \<open>A list in the order that \<^verbatim>\<open>ORDER BY opening_ply DESC\<close> asks for.\<close>

definition desc_sorted :: "opening_with_ply list \<Rightarrow> bool" where
  "desc_sorted xs = sorted_wrt (\<lambda>a b. \<not> sorts_before (opening_ply b) (opening_ply a)) xs"

text \<open>
  What the update does to one row of \<^verbatim>\<open>games\<close>, read off the join: a row outside
  \<^verbatim>\<open>target\<close> has no joined row, and a row inside has the rows of its own subquery.
\<close>

definition classify_row :: "opening_with_ply list \<Rightarrow> game \<Rightarrow> game" where
  "classify_row owp g =
     (if Opening g = None then
        (case lateral owp g of [] \<Rightarrow> g | (e, n) # _ \<Rightarrow> g\<lparr>ECO := e, Opening := n\<rparr>)
      else g)"

text \<open>Rows with every column NULL, from which concrete rows are built.\<close>

definition blank_game :: game where
  "blank_game =
     \<lparr>Event = None, Site = None, White = None, Black = None, Result = None,
      WhiteTitle = None, BlackTitle = None, WhiteElo = None, BlackElo = None,
      UTCDate = None, UTCTime = None, ECO = None, Opening = None, Termination = None,
      TimeControl = None, Source = None, movetext = None, DataSource = None,
      parse_error = None, clean_movetext = None\<rparr>"

definition entry :: "string \<Rightarrow> string \<Rightarrow> string \<Rightarrow> string \<Rightarrow> opening_entry" where
  "entry c n u p = \<lparr>eco = Some c, name = Some n, uci = Some u, pgn = Some p\<rparr>"

text \<open>The content of one file after a run.\<close>

definition file_after :: "error option \<times> files \<Rightarrow> path \<Rightarrow> database option" where
  "file_after r p = snd r p"

text \<open>A run of the enricher whose input and output directory are the same.\<close>

definition same_dir_args :: find_openings_args where
  "same_dir_args =
     \<lparr>inDir = Some [''data''], outDir = Some [''data''], dataSource = Some ''lichess'',
      key = None, openingsDb = Some [''openings.duckdb'']\<rparr>"

definition same_dir_files :: files where
  "same_dir_files =
     [[''data'', ''a.duckdb''] \<mapsto> \<lparr>tbl_games = Some [blank_game], tbl_openings = None\<rparr>,
      [''openings.duckdb''] \<mapsto> \<lparr>tbl_games = None, tbl_openings = Some []\<rparr>]"

text \<open>A run of the enricher from one directory into another.\<close>

definition apart_args :: find_openings_args where
  "apart_args =
     \<lparr>inDir = Some [''in''], outDir = Some [''out''], dataSource = Some ''lichess'',
      key = None, openingsDb = Some [''openings.duckdb'']\<rparr>"

definition apart_files :: files where
  "apart_files =
     [[''in'', ''a.duckdb''] \<mapsto> \<lparr>tbl_games = Some [blank_game], tbl_openings = None\<rparr>,
      [''openings.duckdb''] \<mapsto> \<lparr>tbl_games = None, tbl_openings = Some []\<rparr>]"

text \<open>
  The value of the \<^verbatim>\<open>DataSource\<close> column of an exported row, as the select-list line
  fixes it: the label when a non-empty one is given, the store's own column otherwise.
\<close>

definition label_of :: "string option \<Rightarrow> game \<Rightarrow> string option" where
  "label_of ds g = (case ds of None \<Rightarrow> DataSource g | Some d \<Rightarrow> if d = [] then DataSource g else Some d)"

text \<open>The rows that the loop selects from the tables of the stores, in order.\<close>

definition selected :: "string option \<Rightarrow> game list list \<Rightarrow> combined_row list" where
  "selected ds tables = map (select_row (label_of ds)) (filter export_where (concat tables))"

text \<open>
  The store that \<^verbatim>\<open>ATTACH\<close> finds for a listed path \<open>db\<close> on the disk \<open>d\<close>: the database
  file at the path the engine reads from \<^verbatim>\<open>sqlPath(db)\<close>, if there is one.
\<close>

definition attached :: "disk \<Rightarrow> path \<Rightarrow> duckdb_file option" where
  "attached d db =
     (case engine_path db of
        None \<Rightarrow> None
      | Some t \<Rightarrow> (case file_at d t of Some (Duck f) \<Rightarrow> Some f | _ \<Rightarrow> None))"



text \<open>The table \<^verbatim>\<open>combined\<close> of the database file at a path.\<close>

definition combined_at :: "disk \<Rightarrow> path \<Rightarrow> combined_row list option" where
  "combined_at d p = (case file_at d p of Some (Duck f) \<Rightarrow> tbl_combined f | _ \<Rightarrow> None)"

text \<open>A small consolidation: one store with a game of 2020, a game of 1400 and an undated game.\<close>

definition game_2020 :: game where
  "game_2020 =
     blank_game\<lparr>UTCDate := Some \<lparr>date_year = 2020, date_month = 3, date_day = 15\<rparr>,
                DataSource := Some ''lichess''\<rparr>"

definition game_1400 :: game where
  "game_1400 =
     blank_game\<lparr>UTCDate := Some \<lparr>date_year = 1400, date_month = 1, date_day = 1\<rparr>,
                DataSource := Some ''lichess''\<rparr>"

definition consolidate_args :: "string option \<Rightarrow> string option \<Rightarrow> export_args" where
  "consolidate_args ds k =
     \<lparr>inDir = Some [''in''], outDir = Some [''out''], dataSource = ds, key = k,
      outDb = Some [''work'', ''combined.duckdb'']\<rparr>"

definition store_a :: duckdb_file where
  "store_a =
     \<lparr>tbl_games = Some [game_2020, game_1400, blank_game], tbl_openings = None,
      games_DataSource = True, tbl_combined = None\<rparr>"

definition no_order :: "path \<Rightarrow> path \<Rightarrow> int" where
  "no_order a b = 0"

text \<open>A disk with the one store, and nothing else.\<close>

definition one_store :: disk where
  "one_store = \<lparr>nodes = [([''in'', ''a.duckdb''], Duck store_a)], folders = []\<rparr>"

text \<open>
  The same disk with what an earlier run with another label may have left behind: a working
  database with its table \<^verbatim>\<open>combined\<close>, and a partition directory below the output directory.
\<close>

definition leftover :: disk where
  "leftover =
     \<lparr>nodes =
        [([''out''],
            Partitioned [((Some ''old'', Some 1400, Some ''01''),
                          [select_row (\<lambda>g. Some ''old'') game_1400])]),
         ([''work'', ''combined.duckdb''],
            Duck (empty_file\<lparr>tbl_combined := Some [select_row (\<lambda>g. Some ''old'') game_1400]\<rparr>)),
         ([''in'', ''a.duckdb''], Duck store_a)],
      folders = [[''work''], [''out'']]\<rparr>"

text \<open>A dated, unclassified game whose parse ended in an error after two moves.\<close>

definition flawed_game :: game where
  "flawed_game =
     blank_game\<lparr>UTCDate := Some \<lparr>date_year = 2020, date_month = 3, date_day = 15\<rparr>,
                parse_error := Some ''illegal move'',
                clean_movetext := Some ''1. e4 e5''\<rparr>"

section \<open>Properties of the SQL text\<close>

lemma strip_prefix_append: "strip_prefix p (p @ s) = Some s"
  by (induction p) auto

lemma lex_body_escaped:
  "(case rest of [] \<Rightarrow> True | c # _ \<Rightarrow> c \<noteq> quote) \<Longrightarrow>
   lex_body (sqlStringLiteral s @ quote # rest) = Some (s, rest)"
proof (induction s)
  case Nil
  then show ?case by (cases rest) (auto simp: sqlStringLiteral_def)
next
  case (Cons a s)
  then have ih: "lex_body (sqlStringLiteral s @ quote # rest) = Some (s, rest)" by simp
  have step: "sqlStringLiteral (a # s) = (if a = quote then [quote, quote] else [a]) @ sqlStringLiteral s"
    by (simp add: sqlStringLiteral_def)
  show ?case
  proof (cases "a = quote")
    case True
    then show ?thesis using ih step by simp
  next
    case False
    obtain d ds where tl: "sqlStringLiteral s @ quote # rest = d # ds"
      by (cases "sqlStringLiteral s @ quote # rest") auto
    then show ?thesis using False ih step by simp
  qed
qed

lemma sql_string_constant_quoted:
  "(case rest of [] \<Rightarrow> True | c # _ \<Rightarrow> c \<noteq> quote) \<Longrightarrow>
   sql_string_constant (quoted s @ rest) = Some (s, rest)"
  using lex_body_escaped [of rest s] by (simp add: sql_string_constant_def quoted_def)

text \<open>
  The path constants of \<^verbatim>\<open>ATTACH\<close> and \<^verbatim>\<open>COPY\<close> are written with \<^verbatim>\<open>sqlPath\<close>; read back,
  such a constant is the path with every backslash turned into a slash.
\<close>

lemma sqlPath_reads_back:
  "sql_string_constant (quote # sqlPath p @ [quote])
     = Some (map (\<lambda>c. if c = CHR 0x5C then CHR ''/'' else c) p, [])"
  using sql_string_constant_quoted [of "[]" "map (\<lambda>c. if c = CHR 0x5C then CHR ''/'' else c) p"]
  by (simp add: sqlPath_def quoted_def)

section \<open>Containment, splitting and ordering\<close>



lemma length_string_split: "length (string_split s c) = Suc (count_list s c)"
  by (induction s) (auto split: list.splits)

lemma set_insert_desc: "set (insert_desc x ys) = insert x (set ys)"
  by (induction ys) auto

lemma set_order_by: "set (order_by_opening_ply_desc rows) = set rows"
  by (induction rows) (auto simp: order_by_opening_ply_desc_def set_insert_desc)

lemma length_insert_desc: "length (insert_desc x ys) = Suc (length ys)"
  by (induction ys) auto

lemma length_order_by: "length (order_by_opening_ply_desc rows) = length rows"
  by (induction rows) (auto simp: order_by_opening_ply_desc_def length_insert_desc)

lemma sorts_before_trans_neg:
  "\<not> sorts_before b a \<Longrightarrow> \<not> sorts_before c b \<Longrightarrow> \<not> sorts_before c a"
  by (auto simp: sorts_before_def split: option.splits)

lemma sorts_before_asym: "sorts_before a b \<Longrightarrow> \<not> sorts_before b a"
  by (auto simp: sorts_before_def split: option.splits)

lemma sorted_insert_desc: "desc_sorted ys \<Longrightarrow> desc_sorted (insert_desc x ys)"
  unfolding desc_sorted_def
proof (induction ys)
  case Nil
  then show ?case by simp
next
  case (Cons y ys)
  then show ?case
    by (auto simp: set_insert_desc dest: sorts_before_asym sorts_before_trans_neg)
qed

lemma sorted_order_by: "desc_sorted (order_by_opening_ply_desc rows)"
  by (induction rows) (auto simp: order_by_opening_ply_desc_def sorted_insert_desc, simp add: desc_sorted_def)

section \<open>The update, row by row\<close>

lemma find_append_cases:
  "find P (xs @ ys) = (case find P xs of None \<Rightarrow> find P ys | Some x \<Rightarrow> Some x)"
  by (induction xs) auto

lemma joined_Cons:
  "joined owp ((j, t) # tgt) = map (\<lambda>r. (j, r)) (lateral owp t) @ joined owp tgt"
  by (simp add: joined_def)

lemma find_own_rows:
  "find (\<lambda>(game_id, r). i = game_id) (map (\<lambda>r. (j, r)) rs) =
     (if i = j then (case rs of [] \<Rightarrow> None | r # _ \<Rightarrow> Some (j, r)) else None)"
  by (cases rs) (auto simp: find_None_iff)

lemma find_joined_absent:
  "i \<notin> fst ` set tgt \<Longrightarrow> find (\<lambda>(game_id, r). i = game_id) (joined owp tgt) = None"
proof (induction tgt)
  case Nil
  then show ?case by (simp add: joined_def)
next
  case (Cons x tgt)
  obtain j t where x: "x = (j, t)" by (cases x)
  then have "i \<noteq> j" and "i \<notin> fst ` set tgt" using Cons.prems by auto
  then show ?case using Cons.IH x
    by (simp add: joined_Cons find_append_cases find_own_rows)
qed

lemma find_joined_present:
  "distinct (map fst xs) \<Longrightarrow> (i, m) \<in> set xs \<Longrightarrow>
   find (\<lambda>(game_id, r). i = game_id) (joined owp (filter Q xs)) =
     (if Q (i, m) then (case lateral owp m of [] \<Rightarrow> None | r # _ \<Rightarrow> Some (i, r)) else None)"
proof (induction xs)
  case Nil
  then show ?case by simp
next
  case (Cons x xs)
  obtain j t where x: "x = (j, t)" by (cases x)
  have notin: "j \<notin> fst ` set xs" and dist: "distinct (map fst xs)"
    using Cons.prems(1) x by auto
  show ?case
  proof (cases "i = j")
    case True
    then have m: "m = t" using Cons.prems(2) notin x by force
    have rest: "find (\<lambda>(game_id, r). i = game_id) (joined owp (filter Q xs)) = None"
      using notin True by (intro find_joined_absent) auto
    show ?thesis using True m rest x
      by (auto simp: joined_Cons find_append_cases find_own_rows split: list.splits)
  next
    case False
    then have "(i, m) \<in> set xs" using Cons.prems(2) x by auto
    then have ih: "find (\<lambda>(game_id, r). i = game_id) (joined owp (filter Q xs)) =
       (if Q (i, m) then (case lateral owp m of [] \<Rightarrow> None | r # _ \<Rightarrow> Some (i, r)) else None)"
      using Cons.IH dist by blast
    show ?thesis using False ih x
      by (simp add: joined_Cons find_append_cases find_own_rows)
  qed
qed

lemma classify_openings_rows:
  "classify_openings openings games = map (classify_row (openings_with_ply openings)) games"
proof -
  let ?owp = "openings_with_ply openings"
  let ?j = "joined ?owp (target games)"
  have dist: "distinct (map fst (enumerate 0 games))" by simp
  let ?upd = "\<lambda>(rowid, m). (case find (\<lambda>(game_id, r). rowid = game_id) ?j of
              None \<Rightarrow> m | Some (game_id, e, n) \<Rightarrow> m\<lparr>ECO := e, Opening := n\<rparr>)"
  let ?row = "\<lambda>(rowid, m). classify_row ?owp m"
  have "map ?upd (enumerate 0 games) = map ?row (enumerate 0 games)"
  proof (rule map_cong [OF refl])
    fix x assume xin: "x \<in> set (enumerate 0 games)"
    obtain i m where x: "x = (i, m)" by (cases x)
    have "find (\<lambda>(game_id, r). i = game_id) ?j =
       (if holds (is_null (Opening m)) then (case lateral ?owp m of [] \<Rightarrow> None | r # _ \<Rightarrow> Some (i, r)) else None)"
      unfolding target_def
      using find_joined_present [OF dist, where i = i and m = m and Q = "\<lambda>(game_id, g). holds (is_null (Opening g))" and owp = ?owp] xin x
      by simp
    then show "?upd x = ?row x"
      using x by (auto simp: classify_row_def holds_def is_null_def split: list.splits)
  qed
  also have "\<dots> = map (classify_row ?owp) (map snd (enumerate 0 games))"
    by (simp only: map_map comp_def case_prod_unfold)
  also have "\<dots> = map (classify_row ?owp) games"
    by (simp only: map_snd_enumerate)
  finally show ?thesis by (simp add: classify_openings_def update_games_def)
qed

section \<open>The classifier\<close>


lemma not_sorts_before_self: "\<not> sorts_before a a"
  by (auto simp: sorts_before_def split: option.splits)

lemma order_by_head_greatest:
  assumes "order_by_opening_ply_desc rows = h # rest" and "x \<in> set rows"
  shows "\<not> sorts_before (opening_ply x) (opening_ply h)"
proof -
  have "desc_sorted (h # rest)" using sorted_order_by [of rows] assms(1) by simp
  moreover have "x \<in> set (h # rest)" using set_order_by [of rows] assms by simp
  ultimately show ?thesis
    by (auto simp: desc_sorted_def not_sorts_before_self)
qed

lemma lateral_matches_only:
  "matches (g\<lparr>ECO := a, Opening := b\<rparr>) = matches g"
  by (rule ext) (simp add: matches_def)

lemma lateral_update: "lateral owp (g\<lparr>ECO := a, Opening := b\<rparr>) = lateral owp g"
  by (simp add: lateral_def candidates_def lateral_matches_only)

lemma classify_row_idem: "classify_row owp (classify_row owp g) = classify_row owp g"
  by (auto simp: classify_row_def lateral_update split: list.splits)

lemma classify_row_classified: "Opening g \<noteq> None \<Longrightarrow> classify_row owp g = g"
  by (auto simp: classify_row_def)

lemma lateral_Nil_iff: "lateral owp g = [] \<longleftrightarrow> candidates owp g = []"
proof -
  have "length (lateral owp g) = min (length (candidates owp g)) 1"
    by (simp add: lateral_def length_order_by)
  then show ?thesis by (cases "candidates owp g") auto
qed

lemma classify_row_no_match: "candidates owp g = [] \<Longrightarrow> classify_row owp g = g"
  using lateral_Nil_iff [of owp g] by (simp add: classify_row_def)

lemma sorts_before_plies:
  "\<not> sorts_before (opening_ply (with_ply e')) (opening_ply (with_ply e)) \<longleftrightarrow>
     (case uci e' of None \<Rightarrow> True
      | Some u' \<Rightarrow> (\<exists>u. uci e = Some u \<and>
           array_length (string_split u' CHR '' '') \<le> array_length (string_split u CHR '' '')))"
  by (auto simp: sorts_before_def with_ply_def split: option.splits)



text \<open>
  C2. For a game whose \<^verbatim>\<open>Opening\<close> is NULL and that has a matching entry, the lateral
  subquery returns one row, taken from a matching entry \<open>e\<close>; the ply of \<open>e\<close>, the number of
  pieces of its \<^verbatim>\<open>uci\<close> split at spaces, is at least the ply of every matching entry (an
  entry without \<^verbatim>\<open>uci\<close> has no ply and ranks below all others); and the update sets the
  game's \<^verbatim>\<open>ECO\<close> and \<^verbatim>\<open>Opening\<close> to the \<^verbatim>\<open>eco\<close> and \<^verbatim>\<open>name\<close> of \<open>e\<close>.
\<close>

theorem C2_greatest_ply:
  assumes "i < length games"
    and "Opening (games ! i) = None"
    and "\<exists>e \<in> set openings. matches (games ! i) (with_ply e)"
  shows "\<exists>e \<in> set openings.
           matches (games ! i) (with_ply e)
         \<and> lateral (openings_with_ply openings) (games ! i) = [(eco e, name e)]
         \<and> (\<forall>e' \<in> set openings. matches (games ! i) (with_ply e') \<longrightarrow>
               (case uci e' of None \<Rightarrow> True
                | Some u' \<Rightarrow> (\<exists>u. uci e = Some u \<and>
                     array_length (string_split u' CHR '' '')
                       \<le> array_length (string_split u CHR '' ''))))
         \<and> classify_openings openings games ! i
               = (games ! i)\<lparr>ECO := eco e, Opening := name e\<rparr>"
proof -
  let ?g = "games ! i"
  let ?owp = "openings_with_ply openings"
  let ?cs = "candidates ?owp ?g"
  have cs_set: "set ?cs = {with_ply e | e. e \<in> set openings \<and> matches ?g (with_ply e)}"
    by (auto simp: candidates_def openings_with_ply_def)
  then have "?cs \<noteq> []" using assms(3) by auto
  then have "order_by_opening_ply_desc ?cs \<noteq> []"
    using length_order_by [of ?cs] by auto
  then obtain h rest where hd: "order_by_opening_ply_desc ?cs = h # rest"
    by (cases "order_by_opening_ply_desc ?cs") auto
  then have "h \<in> set ?cs" using set_order_by [of ?cs] by auto
  then obtain e where e: "e \<in> set openings" "matches ?g (with_ply e)" "h = with_ply e"
    using cs_set by auto
  have lat: "lateral ?owp ?g = [(eco e, name e)]"
    using hd e(3) by (simp add: lateral_def with_ply_def)
  have great: "\<forall>e' \<in> set openings. matches ?g (with_ply e') \<longrightarrow>
        \<not> sorts_before (opening_ply (with_ply e')) (opening_ply (with_ply e))"
  proof (intro ballI impI)
    fix e' assume "e' \<in> set openings" "matches ?g (with_ply e')"
    then have "with_ply e' \<in> set ?cs" using cs_set by auto
    then show "\<not> sorts_before (opening_ply (with_ply e')) (opening_ply (with_ply e))"
      using order_by_head_greatest [OF hd] e(3) by simp
  qed
  have "classify_openings openings games ! i = classify_row ?owp ?g"
    using assms(1) by (simp add: classify_openings_rows)
  also have "\<dots> = ?g\<lparr>ECO := eco e, Opening := name e\<rparr>"
    using assms(2) lat by (simp add: classify_row_def)
  finally have upd: "classify_openings openings games ! i = ?g\<lparr>ECO := eco e, Opening := name e\<rparr>" .
  show ?thesis
    using e(1,2) lat great upd unfolding sorts_before_plies by blast
qed

theorem C2_greatest_ply_witness:
  "(0::nat) < length [blank_game\<lparr>clean_movetext := Some ''1. e4 e5 2. Nf3 Nc6 3. Bb5''\<rparr>]
   \<and> Opening ([blank_game\<lparr>clean_movetext := Some ''1. e4 e5 2. Nf3 Nc6 3. Bb5''\<rparr>] ! 0) = None
   \<and> ECO (classify_openings
          [entry ''C20'' ''Kings Pawn Game'' ''e2e4 e7e5'' ''1. e4 e5'',
           entry ''C44'' ''Kings Knight Opening'' ''e2e4 e7e5 g1f3 b8c6'' ''1. e4 e5 2. Nf3 Nc6'']
          [blank_game\<lparr>clean_movetext := Some ''1. e4 e5 2. Nf3 Nc6 3. Bb5''\<rparr>] ! 0) = Some ''C44''"
proof -
  let ?g = "blank_game\<lparr>clean_movetext := Some ''1. e4 e5 2. Nf3 Nc6 3. Bb5''\<rparr>"
  let ?e1 = "entry ''C20'' ''Kings Pawn Game'' ''e2e4 e7e5'' ''1. e4 e5''"
  let ?e2 = "entry ''C44'' ''Kings Knight Opening'' ''e2e4 e7e5 g1f3 b8c6'' ''1. e4 e5 2. Nf3 Nc6''"
  have h1: "(0::nat) < length [?g]" by simp
  have h2: "Opening ([?g] ! 0) = None" by (simp add: blank_game_def)
  have m1: "matches ([?g] ! 0) (with_ply ?e1)"
    by (simp add: matches_def holds_def CONTAINS_def with_ply_def entry_def)
  have m2: "matches ([?g] ! 0) (with_ply ?e2)"
    by (simp add: matches_def holds_def CONTAINS_def with_ply_def entry_def)
  have h3: "\<exists>e \<in> set [?e1, ?e2]. matches ([?g] ! 0) (with_ply e)" using m1 by simp
  obtain e where e: "e \<in> set [?e1, ?e2]"
    and great: "\<forall>e' \<in> set [?e1, ?e2]. matches ([?g] ! 0) (with_ply e') \<longrightarrow>
               (case uci e' of None \<Rightarrow> True
                | Some u' \<Rightarrow> (\<exists>u. uci e = Some u \<and>
                     array_length (string_split u' CHR '' '')
                       \<le> array_length (string_split u CHR '' '')))"
    and upd: "classify_openings [?e1, ?e2] [?g] ! 0 = ([?g] ! 0)\<lparr>ECO := eco e, Opening := name e\<rparr>"
    using C2_greatest_ply [OF h1 h2 h3] by blast
  have "e \<noteq> ?e1"
  proof
    assume "e = ?e1"
    then have "array_length (string_split ''e2e4 e7e5 g1f3 b8c6'' CHR '' '')
                 \<le> array_length (string_split ''e2e4 e7e5'' CHR '' '')"
      using great m2 by (simp add: entry_def)
    then show False by (simp add: array_length_def)
  qed
  then have "e = ?e2" using e by simp
  then have "ECO (classify_openings [?e1, ?e2] [?g] ! 0) = Some ''C44''"
    using upd by (simp add: entry_def)
  then show ?thesis using h1 h2 by blast
qed

lemma joined_targets:
  "(i, r) \<in> set (joined owp (target games)) \<Longrightarrow> i < length games \<and> Opening (games ! i) = None"
  by (auto simp: joined_def target_def holds_def is_null_def in_set_enumerate_eq)

text \<open>
  C4. Every row that the join offers to the update belongs to a game whose \<^verbatim>\<open>Opening\<close> is
  NULL; the update leaves every game whose \<^verbatim>\<open>Opening\<close> is not NULL exactly as it was; and
  running the classifier a second time with the same catalogue changes nothing: the table
  after the second run is the table after the first.
\<close>

theorem C4_classified_rows_kept:
  "(\<forall>i r. (i, r) \<in> set (joined (openings_with_ply openings) (target games))
        \<longrightarrow> i < length games \<and> Opening (games ! i) = None)
   \<and> (\<forall>i < length games. Opening (games ! i) \<noteq> None \<longrightarrow>
        classify_openings openings games ! i = games ! i)
   \<and> classify_openings openings (classify_openings openings games)
        = classify_openings openings games"
  using joined_targets
  by (simp add: classify_openings_rows classify_row_idem classify_row_classified)

theorem C4_classified_rows_kept_witness:
  "(1, Some ''C20'', Some ''Kings Pawn Game'')
      \<in> set (joined (openings_with_ply [entry ''C20'' ''Kings Pawn Game'' ''e2e4 e7e5'' ''1. e4 e5''])
           (target [blank_game\<lparr>Opening := Some ''Italian Game'', clean_movetext := Some ''1. e4 e5''\<rparr>,
                    blank_game\<lparr>clean_movetext := Some ''1. e4 e5 2. Nf3''\<rparr>]))
   \<and> Opening ([blank_game\<lparr>Opening := Some ''Italian Game'', clean_movetext := Some ''1. e4 e5''\<rparr>,
                blank_game\<lparr>clean_movetext := Some ''1. e4 e5 2. Nf3''\<rparr>] ! 1) = None
   \<and> Opening ([blank_game\<lparr>Opening := Some ''Italian Game'', clean_movetext := Some ''1. e4 e5''\<rparr>,
                blank_game\<lparr>clean_movetext := Some ''1. e4 e5 2. Nf3''\<rparr>] ! 0) \<noteq> None
   \<and> classify_openings [entry ''C20'' ''Kings Pawn Game'' ''e2e4 e7e5'' ''1. e4 e5'']
        [blank_game\<lparr>Opening := Some ''Italian Game'', clean_movetext := Some ''1. e4 e5''\<rparr>,
         blank_game\<lparr>clean_movetext := Some ''1. e4 e5 2. Nf3''\<rparr>] ! 0
      = blank_game\<lparr>Opening := Some ''Italian Game'', clean_movetext := Some ''1. e4 e5''\<rparr>"
proof -
  let ?g0 = "blank_game\<lparr>Opening := Some ''Italian Game'', clean_movetext := Some ''1. e4 e5''\<rparr>"
  let ?g1 = "blank_game\<lparr>clean_movetext := Some ''1. e4 e5 2. Nf3''\<rparr>"
  let ?cat = "[entry ''C20'' ''Kings Pawn Game'' ''e2e4 e7e5'' ''1. e4 e5'']"
  have t: "target [?g0, ?g1] = [(1, ?g1)]"
    by (simp add: target_def holds_def is_null_def blank_game_def)
  have m: "matches ?g1 (with_ply (entry ''C20'' ''Kings Pawn Game'' ''e2e4 e7e5'' ''1. e4 e5''))"
    by (simp add: matches_def holds_def CONTAINS_def with_ply_def entry_def)
  have l: "lateral (openings_with_ply ?cat) ?g1 = [(Some ''C20'', Some ''Kings Pawn Game'')]"
    using m
    by (simp add: lateral_def candidates_def openings_with_ply_def order_by_opening_ply_desc_def)
       (simp add: with_ply_def entry_def)
  have j: "(1, Some ''C20'', Some ''Kings Pawn Game'') \<in> set (joined (openings_with_ply ?cat) (target [?g0, ?g1]))"
    by (simp add: t joined_def l)
  have h: "Opening ([?g0, ?g1] ! 0) \<noteq> None" by simp
  have c4: "(\<forall>i r. (i, r) \<in> set (joined (openings_with_ply ?cat) (target [?g0, ?g1]))
        \<longrightarrow> i < length [?g0, ?g1] \<and> Opening ([?g0, ?g1] ! i) = None)
     \<and> (\<forall>i < length [?g0, ?g1]. Opening ([?g0, ?g1] ! i) \<noteq> None \<longrightarrow>
        classify_openings ?cat [?g0, ?g1] ! i = [?g0, ?g1] ! i)"
    using C4_classified_rows_kept [where games = "[?g0, ?g1]" and openings = ?cat] by blast
  from c4 j have "Opening ([?g0, ?g1] ! 1) = None" by blast
  moreover from c4 h have "classify_openings ?cat [?g0, ?g1] ! 0 = [?g0, ?g1] ! 0" by simp
  ultimately show ?thesis using j h by simp
qed

section \<open>The source enricher\<close>

lemma exec_update_DataSource_ok:
  "exec_update_DataSource (update_DataSource_sql ds) games
     = Inr (map (\<lambda>g. g\<lparr>DataSource := Some ds\<rparr>) games)"
proof -
  have "sql_string_constant (quoted ds @ '';'') = Some (ds, '';'')"
    by (rule sql_string_constant_quoted) (simp add: quote_def)
  then show ?thesis
    unfolding exec_update_DataSource_def update_DataSource_sql_def
    by (simp only: strip_prefix_append option.case prod.case refl if_True)
qed

text \<open>
  C10. Reading the text \<^verbatim>\<open>'${sqlStringLiteral(s)}'\<close> back as an SQL string constant gives
  exactly \<open>s\<close>, for every string \<open>s\<close>, and so the statement
  \<^verbatim>\<open>UPDATE games SET DataSource = '...'\<close> built from a label sets the \<^verbatim>\<open>DataSource\<close> of
  every row to that label, single quotes included.
\<close>

theorem C10_literal_roundtrip:
  "sql_string_constant (quoted s) = Some (s, [])
   \<and> exec_update_DataSource (update_DataSource_sql s) games
        = Inr (map (\<lambda>g. g\<lparr>DataSource := Some s\<rparr>) games)"
  using sql_string_constant_quoted [of "[]" s] exec_update_DataSource_ok [of s games] by simp

theorem C10_literal_roundtrip_witness:
  "exec_update_DataSource (update_DataSource_sql ''it's'') [blank_game]
        = Inr [blank_game\<lparr>DataSource := Some ''it's''\<rparr>]"
  using C10_literal_roundtrip [of "''it's''" "[blank_game]"] by simp

lemma matches_tagged: "matches (g\<lparr>DataSource := d\<rparr>) = matches g"
  by (rule ext) (simp add: matches_def)

lemma lateral_tagged: "lateral owp (g\<lparr>DataSource := d\<rparr>) = lateral owp g"
  by (simp add: lateral_def candidates_def matches_tagged)

lemma classify_row_tagged:
  "classify_row owp (g\<lparr>DataSource := d\<rparr>) = (classify_row owp g)\<lparr>DataSource := d\<rparr>"
  by (auto simp: classify_row_def lateral_tagged split: list.splits)

lemma run_enrichment_ok:
  assumes "tbl_games db = Some games" and "catalogue = Some c" and "tbl_openings c = Some entries"
  shows "run_enrichment ds catalogue db =
     (None, db\<lparr>tbl_games := Some (map (\<lambda>g. (classify_row (openings_with_ply entries) g)\<lparr>DataSource := Some ds\<rparr>) games)\<rparr>)"
  using assms
  by (simp add: run_enrichment_def exec_update_DataSource_ok classify_openings_rows
      classify_row_tagged comp_def)

lemma candidates_Nil_iff:
  "candidates (openings_with_ply entries) g = [] \<longleftrightarrow> (\<forall>e \<in> set entries. \<not> matches g (with_ply e))"
  by (auto simp: candidates_def openings_with_ply_def filter_empty_conv)

text \<open>
  C8. When the store has a \<^verbatim>\<open>games\<close> table and the catalogue can be read, the enrichment
  script ends without error whatever matches there are, and a game that no entry matches
  is only tagged with the data source: its \<^verbatim>\<open>ECO\<close> and \<^verbatim>\<open>Opening\<close> are what they were,
  so NULL stays NULL.
\<close>

theorem C8_no_match_is_success:
  assumes "tbl_games db = Some games" and "catalogue = Some c" and "tbl_openings c = Some entries"
  shows "\<exists>games'. run_enrichment ds catalogue db = (None, db\<lparr>tbl_games := Some games'\<rparr>)
           \<and> length games' = length games
           \<and> (\<forall>i < length games. (\<forall>e \<in> set entries. \<not> matches (games ! i) (with_ply e)) \<longrightarrow>
                  games' ! i = (games ! i)\<lparr>DataSource := Some ds\<rparr>
                \<and> ECO (games' ! i) = ECO (games ! i)
                \<and> Opening (games' ! i) = Opening (games ! i))"
proof -
  let ?games' = "map (\<lambda>g. (classify_row (openings_with_ply entries) g)\<lparr>DataSource := Some ds\<rparr>) games"
  have run: "run_enrichment ds catalogue db = (None, db\<lparr>tbl_games := Some ?games'\<rparr>)"
    using run_enrichment_ok [OF assms] .
  have rows: "\<forall>i < length games. (\<forall>e \<in> set entries. \<not> matches (games ! i) (with_ply e)) \<longrightarrow>
                  ?games' ! i = (games ! i)\<lparr>DataSource := Some ds\<rparr>
                \<and> ECO (?games' ! i) = ECO (games ! i)
                \<and> Opening (?games' ! i) = Opening (games ! i)"
  proof (intro allI impI)
    fix i assume i: "i < length games" and none: "\<forall>e \<in> set entries. \<not> matches (games ! i) (with_ply e)"
    have "candidates (openings_with_ply entries) (games ! i) = []"
      using none by (simp add: candidates_Nil_iff)
    then have "classify_row (openings_with_ply entries) (games ! i) = games ! i"
      by (rule classify_row_no_match)
    then show "?games' ! i = (games ! i)\<lparr>DataSource := Some ds\<rparr>
                \<and> ECO (?games' ! i) = ECO (games ! i)
                \<and> Opening (?games' ! i) = Opening (games ! i)"
      using i by simp
  qed
  have "length ?games' = length games" by simp
  then show ?thesis using run rows by blast
qed

theorem C8_no_match_is_success_witness:
  "tbl_games \<lparr>tbl_games = Some [blank_game\<lparr>clean_movetext := Some ''1. d4 d5''\<rparr>], tbl_openings = None\<rparr>
      = Some [blank_game\<lparr>clean_movetext := Some ''1. d4 d5''\<rparr>]
   \<and> \<not> matches (blank_game\<lparr>clean_movetext := Some ''1. d4 d5''\<rparr>)
          (with_ply (entry ''C20'' ''Kings Pawn Game'' ''e2e4 e7e5'' ''1. e4 e5''))
   \<and> run_enrichment ''lichess''
         (Some \<lparr>tbl_games = None, tbl_openings = Some [entry ''C20'' ''Kings Pawn Game'' ''e2e4 e7e5'' ''1. e4 e5'']\<rparr>)
         \<lparr>tbl_games = Some [blank_game\<lparr>clean_movetext := Some ''1. d4 d5''\<rparr>], tbl_openings = None\<rparr>
       = (None, \<lparr>tbl_games = Some [blank_game\<lparr>clean_movetext := Some ''1. d4 d5'', DataSource := Some ''lichess''\<rparr>],
                 tbl_openings = None\<rparr>)"
proof -
  let ?g = "blank_game\<lparr>clean_movetext := Some ''1. d4 d5''\<rparr>"
  let ?e = "entry ''C20'' ''Kings Pawn Game'' ''e2e4 e7e5'' ''1. e4 e5''"
  let ?db = "\<lparr>tbl_games = Some [?g], tbl_openings = None\<rparr>"
  let ?c = "\<lparr>tbl_games = None, tbl_openings = Some [?e]\<rparr>"
  have h1: "tbl_games ?db = Some [?g]" by simp
  have h3: "tbl_openings ?c = Some [?e]" by simp
  have nm: "\<not> matches ?g (with_ply ?e)"
    by (simp add: matches_def holds_def CONTAINS_def with_ply_def entry_def)
  obtain games' where run: "run_enrichment ''lichess'' (Some ?c) ?db = (None, ?db\<lparr>tbl_games := Some games'\<rparr>)"
    and len: "length games' = length [?g]"
    and rows: "\<forall>i < length [?g]. (\<forall>e \<in> set [?e]. \<not> matches ([?g] ! i) (with_ply e)) \<longrightarrow>
                  games' ! i = ([?g] ! i)\<lparr>DataSource := Some ''lichess''\<rparr>
                \<and> ECO (games' ! i) = ECO ([?g] ! i)
                \<and> Opening (games' ! i) = Opening ([?g] ! i)"
    using C8_no_match_is_success [OF h1 refl h3, of "''lichess''"] by blast
  have "games' ! 0 = ?g\<lparr>DataSource := Some ''lichess''\<rparr>" using rows nm by simp
  moreover obtain x where "games' = [x]" using len by (cases games') auto
  ultimately have "games' = [?g\<lparr>DataSource := Some ''lichess''\<rparr>]" by simp
  then show ?thesis using run nm by simp
qed

section \<open>The working copies\<close>

lemma relative_append: "relative d (d @ r) = r"
  by (induction d) auto

lemma listing_under:
  "p \<in> set (listFilesByExtensionRecursively dir entries ext) \<Longrightarrow> \<exists>rel. rel \<noteq> [] \<and> p = dir @ rel"
  "p \<in> set (listEntry dir ent ext) \<Longrightarrow> \<exists>rel. rel \<noteq> [] \<and> p = dir @ rel"
proof (induction dir entries ext and dir ent ext arbitrary: p and p
    rule: listFilesByExtensionRecursively_listEntry.induct)
  case (1 dir extLower)
  then show ?case by simp
next
  case (2 dir ent entries extLower)
  then show ?case by auto
next
  case (3 dir n sub extLower)
  then obtain rel where "rel \<noteq> []" "p = join dir [n] @ rel" by auto
  then have "p = dir @ (n # rel)" by (simp add: join_def)
  then show ?case by blast
next
  case (4 dir n extLower)
  then have "p = dir @ [n]" by (auto simp: join_def split: if_splits)
  then show ?case by blast
next
  case (5 dir n extLower)
  then show ?case by simp
qed

lemma copyFileSync_other: "copyFileSync s d fs = Inr copied \<Longrightarrow> p \<noteq> d \<Longrightarrow> copied p = fs p"
  by (auto simp: copyFileSync_def split: option.splits)

lemma duckdb_enrich_other: "p \<noteq> d \<Longrightarrow> snd (duckdb_enrich ds cp d fs) p = fs p"
  by (simp add: duckdb_enrich_def Let_def split: prod.splits)

lemma enrich_stores_frame:
  "p \<notin> (\<lambda>s. join outd (relative ind s)) ` set dbs \<Longrightarrow>
   snd (enrich_stores ind outd cp ds dbs fs) p = fs p"
proof (induction dbs arbitrary: fs)
  case Nil
  then show ?case by simp
next
  case (Cons s dbs)
  let ?dst = "join outd (relative ind s)"
  have ne: "p \<noteq> ?dst" and rest: "p \<notin> (\<lambda>s. join outd (relative ind s)) ` set dbs"
    using Cons.prems by auto
  show ?case
  proof (cases "copyFileSync s ?dst fs")
    case (Inl e)
    then show ?thesis by (simp add: Let_def)
  next
    case (Inr copied)
    have c: "copied p = fs p" using copyFileSync_other [OF Inr ne] .
    obtain err enriched where e: "duckdb_enrich ds cp ?dst copied = (err, enriched)"
      by (cases "duckdb_enrich ds cp ?dst copied")
    have k: "enriched p = fs p" using duckdb_enrich_other [OF ne, of ds cp copied] e c by simp
    show ?thesis
    proof (cases err)
      case None
      then show ?thesis using Inr e k Cons.IH [OF rest, of enriched] by (simp add: Let_def)
    next
      case (Some x)
      then show ?thesis using Inr e k by (simp add: Let_def)
    qed
  qed
qed

lemma enrich_stores_copy:
  "enrich_stores ind outd cp ds dbs fs = (None, fs') \<Longrightarrow>
   \<forall>s \<in> set dbs. join outd (relative ind s) \<notin> set dbs \<Longrightarrow>
   inj_on (\<lambda>s. join outd (relative ind s)) (set dbs) \<Longrightarrow>
   s \<in> set dbs \<Longrightarrow>
   \<exists>db cat db'. fs s = Some db \<and> run_enrichment ds cat db = (None, db')
       \<and> fs' (join outd (relative ind s)) = Some db'"
proof (induction dbs arbitrary: fs)
  case Nil
  then show ?case by simp
next
  case (Cons s0 dbs)
  let ?dst = "\<lambda>s. join outd (relative ind s)"
  from Cons.prems(1) obtain copied enriched where
    c: "copyFileSync s0 (?dst s0) fs = Inr copied" and
    e: "duckdb_enrich ds cp (?dst s0) copied = (None, enriched)" and
    r: "enrich_stores ind outd cp ds dbs enriched = (None, fs')"
    by (auto simp: Let_def split: sum.splits prod.splits option.splits)
  from c obtain db0 where db0: "fs s0 = Some db0" and copied: "copied = fs(?dst s0 \<mapsto> db0)"
    by (auto simp: copyFileSync_def split: option.splits)
  from e copied obtain db0' where run0: "run_enrichment ds (copied cp) db0 = (None, db0')"
    and enriched: "enriched = copied(?dst s0 \<mapsto> db0')"
    by (auto simp: duckdb_enrich_def Let_def split: prod.splits)
  have keep: "\<And>q. q \<noteq> ?dst s0 \<Longrightarrow> enriched q = fs q"
    using copied enriched by simp
  show ?case
  proof (cases "s \<in> set dbs")
    case True
    have "\<exists>db cat db'. enriched s = Some db \<and> run_enrichment ds cat db = (None, db')
       \<and> fs' (?dst s) = Some db'"
    proof (rule Cons.IH [OF r _ _ True])
      show "\<forall>s \<in> set dbs. ?dst s \<notin> set dbs" using Cons.prems(2) by auto
      show "inj_on ?dst (set dbs)" using Cons.prems(3) by (auto simp: inj_on_def)
    qed
    moreover have "s \<noteq> ?dst s0" using Cons.prems(2) True by auto
    ultimately show ?thesis using keep by auto
  next
    case False
    then have s: "s = s0" using Cons.prems(4) by simp
    have "?dst s0 \<notin> ?dst ` set dbs"
    proof
      assume "?dst s0 \<in> ?dst ` set dbs"
      then obtain t where t: "t \<in> set dbs" "?dst t = ?dst s0" by auto
      then have "t = s0" using Cons.prems(3) by (auto simp: inj_on_def)
      then show False using t False s by simp
    qed
    then have "snd (enrich_stores ind outd cp ds dbs enriched) (?dst s0) = enriched (?dst s0)"
      by (rule enrich_stores_frame)
    then have "fs' (?dst s0) = Some db0'" using r enriched by simp
    then show ?thesis using s db0 run0 by blast
  qed
qed

lemma apart:
  assumes "\<not> (\<exists>r. outd = ind @ r)" and "\<not> (\<exists>r. ind = outd @ r)"
  shows "outd @ a \<noteq> ind @ b"
proof
  assume "outd @ a = ind @ b"
  then show False using assms by (auto simp: append_eq_append_conv2)
qed

lemma find_openings_loop:
  assumes "inDir args = Some ind" and "outDir args = Some outd" and "dataSource args = Some ds"
  shows "find_openings args tree fs = (Some UsageError, fs)
       \<or> find_openings args tree fs = (Some NoFilesFound, fs)
       \<or> (\<exists>cp. find_openings args tree fs
                 = enrich_stores ind outd cp ds (listFilesByExtensionRecursively ind tree ''.duckdb'') fs)"
  using assms
  by (auto simp: find_openings_def Let_def split: option.splits)

text \<open>
  C9 (amended). When neither of the input and the output directory lies inside the other
  (nor are they the same), a run leaves every listed input store as it was, whether it ends
  with an error or not: the destination of a store is the output directory followed by
  the store's path relative to the input directory, no destination is itself a listed
  input, and no file other than the destinations is changed; after a run without error
  the file at each destination is the result of the enrichment script on a copy of the
  input.
\<close>

theorem C9_inputs_untouched:
  assumes dirs: "inDir args = Some ind" "outDir args = Some outd"
    and apart1: "\<not> (\<exists>r. outd = ind @ r)" and apart2: "\<not> (\<exists>r. ind = outd @ r)"
    and label: "dataSource args = Some ds"
    and run: "find_openings args tree fs = (err, fs')"
  shows "(\<forall>src \<in> set (listFilesByExtensionRecursively ind tree ''.duckdb'').
            (\<exists>rel. src = ind @ rel \<and> join outd (relative ind src) = outd @ rel)
          \<and> join outd (relative ind src) \<notin> set (listFilesByExtensionRecursively ind tree ''.duckdb'')
          \<and> fs' src = fs src
          \<and> (err = None \<longrightarrow>
               (\<exists>db cat db'. fs src = Some db \<and> run_enrichment ds cat db = (None, db')
                  \<and> fs' (join outd (relative ind src)) = Some db')))
       \<and> (\<forall>p. p \<notin> (\<lambda>src. join outd (relative ind src))
                    ` set (listFilesByExtensionRecursively ind tree ''.duckdb'')
              \<longrightarrow> fs' p = fs p)"
proof -
  let ?dbs = "listFilesByExtensionRecursively ind tree ''.duckdb''"
  let ?dst = "\<lambda>src. join outd (relative ind src)"
  have shape: "\<And>src. src \<in> set ?dbs \<Longrightarrow> \<exists>rel. src = ind @ rel \<and> ?dst src = outd @ rel"
  proof -
    fix src assume "src \<in> set ?dbs"
    then obtain rel where "src = ind @ rel" using listing_under(1) by blast
    then show "\<exists>rel. src = ind @ rel \<and> ?dst src = outd @ rel"
      by (auto simp: join_def relative_append)
  qed
  have notin: "\<And>src. src \<in> set ?dbs \<Longrightarrow> ?dst src \<notin> set ?dbs"
  proof
    fix src assume a: "src \<in> set ?dbs" and b: "?dst src \<in> set ?dbs"
    obtain rel where "?dst src = outd @ rel" using shape [OF a] by blast
    moreover obtain rel' where "?dst src = ind @ rel'" using listing_under(1) [OF b] by blast
    ultimately show False using apart [OF apart1 apart2] by metis
  qed
  have inj: "inj_on ?dst (set ?dbs)"
  proof (rule inj_onI)
    fix x y assume x: "x \<in> set ?dbs" and y: "y \<in> set ?dbs" and eq: "?dst x = ?dst y"
    obtain rx where rx: "x = ind @ rx" "?dst x = outd @ rx" using shape [OF x] by blast
    obtain ry where ry: "y = ind @ ry" "?dst y = outd @ ry" using shape [OF y] by blast
    show "x = y" using rx ry eq by simp
  qed
  have frame: "\<And>p. p \<notin> ?dst ` set ?dbs \<Longrightarrow> fs' p = fs p"
  proof -
    fix p assume p: "p \<notin> ?dst ` set ?dbs"
    from find_openings_loop [OF dirs label, of tree fs]
    consider "find_openings args tree fs = (Some UsageError, fs)"
      | "find_openings args tree fs = (Some NoFilesFound, fs)"
      | cp where "find_openings args tree fs = enrich_stores ind outd cp ds ?dbs fs"
      by blast
    then show "fs' p = fs p"
    proof cases
      case 1
      then show ?thesis using run by simp
    next
      case 2
      then show ?thesis using run by simp
    next
      case 3
      then have "fs' = snd (enrich_stores ind outd cp ds ?dbs fs)"
        using run by (metis snd_conv)
      then show ?thesis using enrich_stores_frame [OF p] by simp
    qed
  qed
  have same: "\<And>src. src \<in> set ?dbs \<Longrightarrow> fs' src = fs src"
  proof -
    fix src assume a: "src \<in> set ?dbs"
    have "src \<notin> ?dst ` set ?dbs"
    proof
      assume "src \<in> ?dst ` set ?dbs"
      then obtain t where "t \<in> set ?dbs" "src = ?dst t" by auto
      then show False using notin a by metis
    qed
    then show "fs' src = fs src" by (rule frame)
  qed
  have copy: "\<And>src. src \<in> set ?dbs \<Longrightarrow> err = None \<Longrightarrow>
      \<exists>db cat db'. fs src = Some db \<and> run_enrichment ds cat db = (None, db') \<and> fs' (?dst src) = Some db'"
  proof -
    fix src assume a: "src \<in> set ?dbs" and ok: "err = None"
    from find_openings_loop [OF dirs label, of tree fs] run ok
    obtain cp where "enrich_stores ind outd cp ds ?dbs fs = (None, fs')" by auto
    then show "\<exists>db cat db'. fs src = Some db \<and> run_enrichment ds cat db = (None, db')
        \<and> fs' (?dst src) = Some db'"
      using enrich_stores_copy [OF _ _ inj a] notin by blast
  qed
  show ?thesis using shape notin same copy frame by simp
qed

theorem C9_inputs_untouched_witness:
  "inDir apart_args = Some [''in''] \<and> outDir apart_args = Some [''out'']
   \<and> \<not> (\<exists>r. [''out''] = [''in''] @ r) \<and> \<not> (\<exists>r. [''in''] = [''out''] @ r)
   \<and> dataSource apart_args = Some ''lichess''
   \<and> [''in'', ''a.duckdb''] \<in> set (listFilesByExtensionRecursively [''in''] [File ''a.duckdb''] ''.duckdb'')
   \<and> fst (find_openings apart_args [File ''a.duckdb''] apart_files) = None
   \<and> file_after (find_openings apart_args [File ''a.duckdb''] apart_files) [''in'', ''a.duckdb'']
        = apart_files [''in'', ''a.duckdb'']
   \<and> file_after (find_openings apart_args [File ''a.duckdb''] apart_files) [''out'', ''a.duckdb'']
        \<noteq> None"
proof -
  have l: "listFilesByExtensionRecursively [''in''] [File ''a.duckdb''] ''.duckdb''
        = [[''in'', ''a.duckdb'']]"
    by (simp add: endsWith_def toLowerCase_def join_def)
  have r: "run_enrichment ''lichess'' (Some \<lparr>tbl_games = None, tbl_openings = Some []\<rparr>)
             \<lparr>tbl_games = Some [blank_game], tbl_openings = None\<rparr>
           = (None, \<lparr>tbl_games = Some [blank_game\<lparr>DataSource := Some ''lichess''\<rparr>], tbl_openings = None\<rparr>)"
    by (simp add: run_enrichment_ok [OF _ refl] classify_row_def lateral_def candidates_def
        openings_with_ply_def order_by_opening_ply_desc_def blank_game_def)
  have h1: "inDir apart_args = Some [''in'']" and h2: "outDir apart_args = Some [''out'']"
    and h5: "dataSource apart_args = Some ''lichess''"
    by (simp_all add: apart_args_def)
  have h3: "\<not> (\<exists>r. [''out''] = [''in''] @ r)" and h4: "\<not> (\<exists>r. [''in''] = [''out''] @ r)"
    by simp_all
  have ok: "fst (find_openings apart_args [File ''a.duckdb''] apart_files) = None"
    using l r
    by (simp add: find_openings_def apart_args_def apart_files_def falsy_def
        copyFileSync_def duckdb_enrich_def join_def)
  then obtain fs' where run: "find_openings apart_args [File ''a.duckdb''] apart_files = (None, fs')"
    by (cases "find_openings apart_args [File ''a.duckdb''] apart_files") auto
  have src: "[''in'', ''a.duckdb''] \<in> set (listFilesByExtensionRecursively [''in''] [File ''a.duckdb''] ''.duckdb'')"
    using l by simp
  have "fs' [''in'', ''a.duckdb''] = apart_files [''in'', ''a.duckdb'']
      \<and> (\<exists>db cat db'. apart_files [''in'', ''a.duckdb''] = Some db
            \<and> run_enrichment ''lichess'' cat db = (None, db')
            \<and> fs' (join [''out''] (relative [''in''] [''in'', ''a.duckdb''])) = Some db')"
    using C9_inputs_untouched [OF h1 h2 h3 h4 h5 run] src by blast
  then have "fs' [''in'', ''a.duckdb''] = apart_files [''in'', ''a.duckdb'']"
    and "fs' [''out'', ''a.duckdb''] \<noteq> None"
    by (auto simp: join_def)
  then show ?thesis using h1 h2 h3 h4 h5 src run by (simp add: file_after_def)
qed

text \<open>
  C9 as stated fails when the output directory is the input directory: the destination of
  \<^verbatim>\<open>data/a.duckdb\<close> is \<^verbatim>\<open>data/a.duckdb\<close> itself, and after the run, which ends without
  error, the input store carries the \<^verbatim>\<open>DataSource\<close> tag.
\<close>

theorem C9_same_directory_counterexample:
  "join [''data''] (relative [''data''] [''data'', ''a.duckdb'']) = [''data'', ''a.duckdb'']
   \<and> listFilesByExtensionRecursively [''data''] [File ''a.duckdb''] ''.duckdb''
        = [[''data'', ''a.duckdb'']]
   \<and> same_dir_files [''data'', ''a.duckdb'']
        = Some \<lparr>tbl_games = Some [blank_game], tbl_openings = None\<rparr>
   \<and> fst (find_openings same_dir_args [File ''a.duckdb''] same_dir_files) = None
   \<and> file_after (find_openings same_dir_args [File ''a.duckdb''] same_dir_files)
          [''data'', ''a.duckdb'']
        = Some \<lparr>tbl_games = Some [blank_game\<lparr>DataSource := Some ''lichess''\<rparr>], tbl_openings = None\<rparr>"
proof -
  have l: "listFilesByExtensionRecursively [''data''] [File ''a.duckdb''] ''.duckdb''
        = [[''data'', ''a.duckdb'']]"
    by (simp add: endsWith_def toLowerCase_def join_def)
  have r: "run_enrichment ''lichess'' (Some \<lparr>tbl_games = None, tbl_openings = Some []\<rparr>)
             \<lparr>tbl_games = Some [blank_game], tbl_openings = None\<rparr>
           = (None, \<lparr>tbl_games = Some [blank_game\<lparr>DataSource := Some ''lichess''\<rparr>], tbl_openings = None\<rparr>)"
    by (simp add: run_enrichment_ok [OF _ refl] classify_row_def lateral_def candidates_def
        openings_with_ply_def order_by_opening_ply_desc_def blank_game_def)
  show ?thesis
    using l r
    by (simp add: find_openings_def same_dir_args_def same_dir_files_def falsy_def file_after_def
        copyFileSync_def duckdb_enrich_def join_def)
qed

section \<open>The consolidator\<close>

lemma export_where_iff:
  "export_where g \<longleftrightarrow> (\<exists>d. UTCDate g = Some d \<and> 1500 \<le> date_year d)"
  by (cases "UTCDate g")
     (auto simp: export_where_def holds_def sql_and_def is_not_null_def sql_ge_def sql_year_def)

lemma eval_dataSourceSelect_ok:
  "eval_dataSourceSelect (dataSourceSelect ds) = Some (label_of ds)"
proof (cases "falsy ds")
  case True
  then have "dataSourceSelect ds = ''  DataSource,''" by (simp add: dataSourceSelect_def)
  moreover have "label_of ds = DataSource"
    using True by (auto simp: label_of_def falsy_def fun_eq_iff split: option.splits)
  ultimately show ?thesis by (simp add: eval_dataSourceSelect_def)
next
  case False
  then obtain d where d: "ds = Some d" "d \<noteq> []" by (auto simp: falsy_def split: option.splits)
  have line: "dataSourceSelect ds = ''  '' @ (quoted d @ '' AS DataSource,'')"
    using d by (simp add: dataSourceSelect_def falsy_def)
  have const: "sql_string_constant (quoted d @ '' AS DataSource,'') = Some (d, '' AS DataSource,'')"
    by (rule sql_string_constant_quoted) (simp add: quote_def)
  have other: "quoted d @ '' AS DataSource,'' \<noteq> ''DataSource,''"
    by (simp add: quoted_def quote_def)
  have lab: "label_of ds = (\<lambda>g. Some d)" using d by (simp add: label_of_def fun_eq_iff)
  show ?thesis
    unfolding eval_dataSourceSelect_def line
    using const other lab
    by (simp only: strip_prefix_append option.case prod.case if_False if_True refl)
qed

lemma select_from_src_ok:
  "select_from_src (dataSourceSelect ds) games
     = Inr (map (select_row (label_of ds)) (filter export_where games))"
  by (simp add: select_from_src_def eval_dataSourceSelect_ok)

lemma partition_rows:
  "(\<exists>k rs. (k, rs) \<in> set (partition_by rows) \<and> r \<in> set rs) \<longleftrightarrow> r \<in> set rows"
proof
  assume "\<exists>k rs. (k, rs) \<in> set (partition_by rows) \<and> r \<in> set rs"
  then show "r \<in> set rows" by (auto simp: partition_by_def)
next
  assume r: "r \<in> set rows"
  then have "(partition_of r, filter (\<lambda>x. partition_of x = partition_of r) rows) \<in> set (partition_by rows)"
    by (auto simp: partition_by_def)
  moreover have "r \<in> set (filter (\<lambda>x. partition_of x = partition_of r) rows)" using r by simp
  ultimately show "\<exists>k rs. (k, rs) \<in> set (partition_by rows) \<and> r \<in> set rs" by blast
qed

subsection \<open>The disk\<close>

lemma below_iff: "below dir p \<longleftrightarrow> (\<exists>r. p = dir @ r)"
  by (induction dir p rule: below.induct) auto

lemma below_refl: "below p p"
  by (simp add: below_iff)

lemma map_of_filter_key:
  "map_of (filter (\<lambda>(q, e). P q) xs) k = (if P k then map_of xs k else None)"
  by (induction xs) auto

lemma file_at_rm: "file_at (rmSync_recursive p d) q = (if below p q then None else file_at d q)"
  by (simp add: file_at_def rmSync_recursive_def map_of_filter_key)

lemma mkdirSync_Inr: "mkdirSync p d = Inr d' \<Longrightarrow> nodes d' = nodes d \<and> folders d' = p # folders d"
  by (auto simp: mkdirSync_def split: if_splits)

lemma rmSync_force_Inr:
  "rmSync_force p d = Inr d' \<Longrightarrow>
     \<not> is_directory d p \<and> nodes d' = filter (\<lambda>(q, e). q \<noteq> p) (nodes d) \<and> folders d' = folders d"
  by (auto simp: rmSync_force_def split: if_splits)

lemma file_at_put: "file_at (put p e d) q = (if q = p then Some e else file_at d q)"
  by (simp add: file_at_def put_def map_of_filter_key)

lemma put_put: "put p e (put p e' d) = put p e d"
  by (simp add: put_def case_prod_unfold)

lemma file_at_in_nodes: "file_at d p = Some e \<Longrightarrow> (p, e) \<in> set (nodes d)"
  by (simp add: file_at_def map_of_SomeD)

subsection \<open>One call of the loop\<close>

lemma names_column_select: "names_column (dataSourceSelect ds) \<longleftrightarrow> falsy ds"
proof (cases "falsy ds")
  case True
  then show ?thesis by (simp add: names_column_def dataSourceSelect_def)
next
  case False
  then obtain d where d: "ds = Some d" by (auto simp: falsy_def split: option.splits)
  have "strip_prefix ''  '' (''  '' @ (quoted d @ '' AS DataSource,'')) = Some (quoted d @ '' AS DataSource,'')"
    by (rule strip_prefix_append)
  moreover have "quoted d @ '' AS DataSource,'' \<noteq> ''DataSource,''"
    by (simp add: quoted_def quote_def)
  ultimately show ?thesis using False d
    by (simp add: names_column_def dataSourceSelect_def del: strip_prefix.simps)
qed

lemma attach_Inr:
  "attach d main db = Inr src \<longleftrightarrow>
     (\<exists>t. engine_path db = Some t \<and> t \<noteq> main \<and> file_at d t = Some (Duck src))"
  by (auto simp: attach_def split: option.splits disk_entry.splits)

lemma attachAndSelect_None:
  assumes "attachAndSelect first (dataSourceSelect ds) main db d = (None, d')"
  shows "\<exists>f src games t.
           open_database d main = Inr f
         \<and> engine_path db = Some t \<and> t \<noteq> main \<and> file_at d t = Some (Duck src)
         \<and> tbl_games src = Some games
         \<and> (falsy ds \<longrightarrow> games_DataSource src)
         \<and> (first \<longrightarrow> tbl_combined f = None)
         \<and> (\<not> first \<longrightarrow> tbl_combined f \<noteq> None)
         \<and> d' = put main (Duck (f\<lparr>tbl_combined :=
                    Some ((case tbl_combined f of None \<Rightarrow> [] | Some old \<Rightarrow> old)
                          @ map (select_row (label_of ds)) (filter export_where games))\<rparr>)) d"
proof -
  from assms obtain f where f: "open_database d main = Inr f"
    by (auto simp: attachAndSelect_def split: sum.splits)
  let ?opened = "put main (Duck f) d"
  from assms f obtain src where src: "attach ?opened main db = Inr src"
    by (auto simp: attachAndSelect_def Let_def split: sum.splits)
  then obtain t where t: "engine_path db = Some t" "t \<noteq> main" "file_at ?opened t = Some (Duck src)"
    by (auto simp: attach_Inr)
  then have at: "file_at d t = Some (Duck src)" by (simp add: file_at_put)
  from assms f src obtain games where games: "tbl_games src = Some games"
    by (auto simp: attachAndSelect_def Let_def split: sum.splits option.splits)
  have col: "falsy ds \<longrightarrow> games_DataSource src"
    using assms f src games
    by (auto simp: attachAndSelect_def Let_def names_column_select split: sum.splits option.splits if_splits)
  have rest: "(first \<longrightarrow> tbl_combined f = None) \<and> (\<not> first \<longrightarrow> tbl_combined f \<noteq> None)
     \<and> d' = put main (Duck (f\<lparr>tbl_combined :=
                    Some ((case tbl_combined f of None \<Rightarrow> [] | Some old \<Rightarrow> old)
                          @ map (select_row (label_of ds)) (filter export_where games))\<rparr>)) d"
    using assms f src games
    by (auto simp: attachAndSelect_def Let_def select_from_src_ok
             split: sum.splits option.splits if_splits)
  show ?thesis using f t(1,2) at games col rest by blast
qed

lemma attached_Some:
  "attached d db = Some s \<longleftrightarrow> (\<exists>t. engine_path db = Some t \<and> file_at d t = Some (Duck s))"
  by (auto simp: attached_def split: option.splits disk_entry.splits)

lemma open_database_Duck: "file_at d p = Some (Duck f) \<Longrightarrow> open_database d p = Inr f"
  by (simp add: open_database_def)

lemma selected_Cons:
  "selected ds (games # tables)
     = map (select_row (label_of ds)) (filter export_where games) @ selected ds tables"
  by (simp add: selected_def)

lemma export_stores_rest:
  "export_stores ds main False dbs (put main (Duck f) x) = (None, d')
   \<Longrightarrow> tbl_combined f = Some old
   \<Longrightarrow> \<exists>stores tables.
         map (attached x) dbs = map Some stores
       \<and> (\<forall>db \<in> set dbs. engine_path db \<noteq> Some main)
       \<and> map tbl_games stores = map Some tables
       \<and> (falsy ds \<longrightarrow> (\<forall>s \<in> set stores. games_DataSource s))
       \<and> d' = put main (Duck (f\<lparr>tbl_combined := Some (old @ selected ds tables)\<rparr>)) x"
proof (induction dbs arbitrary: f old)
  case Nil
  then have "d' = put main (Duck f) x" by simp
  moreover have "f\<lparr>tbl_combined := Some (old @ selected ds [])\<rparr> = f"
    using Nil.prems(2) by (simp add: selected_def)
  ultimately show ?case by simp
next
  case (Cons db dbs)
  let ?d = "put main (Duck f) x"
  from Cons.prems(1) obtain d1 where
    step: "attachAndSelect False (dataSourceSelect ds) main db ?d = (None, d1)"
    and rest: "export_stores ds main False dbs d1 = (None, d')"
    by (auto split: prod.splits option.splits)
  have op: "open_database ?d main = Inr f"
    by (rule open_database_Duck) (simp add: file_at_put)
  from attachAndSelect_None [OF step] op obtain src games t where
    t: "engine_path db = Some t" "t \<noteq> main" "file_at ?d t = Some (Duck src)"
    and games: "tbl_games src = Some games"
    and col: "falsy ds \<longrightarrow> games_DataSource src"
    and d1: "d1 = put main (Duck (f\<lparr>tbl_combined :=
                    Some ((case tbl_combined f of None \<Rightarrow> [] | Some old \<Rightarrow> old)
                          @ map (select_row (label_of ds)) (filter export_where games))\<rparr>)) ?d"
    by auto
  let ?new = "old @ map (select_row (label_of ds)) (filter export_where games)"
  let ?f1 = "f\<lparr>tbl_combined := Some ?new\<rparr>"
  have d1': "d1 = put main (Duck ?f1) x"
    using d1 Cons.prems(2) by (simp add: put_put)
  have at: "attached x db = Some src"
    using t by (auto simp: attached_Some file_at_put)
  from Cons.IH [of ?f1 ?new] rest d1' obtain stores tables where
    ih: "map (attached x) dbs = map Some stores"
        "\<forall>db \<in> set dbs. engine_path db \<noteq> Some main"
        "map tbl_games stores = map Some tables"
        "falsy ds \<longrightarrow> (\<forall>s \<in> set stores. games_DataSource s)"
        "d' = put main (Duck (?f1\<lparr>tbl_combined := Some (?new @ selected ds tables)\<rparr>)) x"
    by auto
  have "d' = put main (Duck (f\<lparr>tbl_combined := Some (old @ selected ds (games # tables))\<rparr>)) x"
    using ih(5) by (simp add: selected_Cons)
  moreover have "map (attached x) (db # dbs) = map Some (src # stores)"
    using at ih(1) by simp
  moreover have "\<forall>db' \<in> set (db # dbs). engine_path db' \<noteq> Some main"
    using t ih(2) by simp
  moreover have "map tbl_games (src # stores) = map Some (games # tables)"
    using games ih(3) by simp
  moreover have "falsy ds \<longrightarrow> (\<forall>s \<in> set (src # stores). games_DataSource s)"
    using col ih(4) by simp
  ultimately show ?case by blast
qed

lemma export_stores_first:
  assumes run: "export_stores ds main True dbs x = (None, d')"
    and dbs: "dbs \<noteq> []"
    and none: "file_at x main = None"
  shows "\<exists>stores tables.
         map (attached x) dbs = map Some stores
       \<and> (\<forall>db \<in> set dbs. engine_path db \<noteq> Some main)
       \<and> map tbl_games stores = map Some tables
       \<and> (falsy ds \<longrightarrow> (\<forall>s \<in> set stores. games_DataSource s))
       \<and> d' = put main (Duck (empty_file\<lparr>tbl_combined := Some (selected ds tables)\<rparr>)) x"
proof -
  from dbs obtain db rest where split: "dbs = db # rest" by (cases dbs) auto
  from run split obtain d1 where
    step: "attachAndSelect True (dataSourceSelect ds) main db x = (None, d1)"
    and more: "export_stores ds main False rest d1 = (None, d')"
    by (auto split: prod.splits option.splits)
  from attachAndSelect_None [OF step] obtain f src games t where
    f: "open_database x main = Inr f"
    and t: "engine_path db = Some t" "t \<noteq> main" "file_at x t = Some (Duck src)"
    and games: "tbl_games src = Some games"
    and col: "falsy ds \<longrightarrow> games_DataSource src"
    and new: "tbl_combined f = None"
    and d1: "d1 = put main (Duck (f\<lparr>tbl_combined :=
                    Some ((case tbl_combined f of None \<Rightarrow> [] | Some old \<Rightarrow> old)
                          @ map (select_row (label_of ds)) (filter export_where games))\<rparr>)) x"
    by auto
  have "f = empty_file"
    using f none by (auto simp: open_database_def split: if_splits)
  let ?rows = "map (select_row (label_of ds)) (filter export_where games)"
  let ?f1 = "empty_file\<lparr>tbl_combined := Some ?rows\<rparr>"
  have d1': "d1 = put main (Duck ?f1) x"
    using d1 new \<open>f = empty_file\<close> by simp
  have at: "attached x db = Some src"
    using t by (auto simp: attached_Some)
  from export_stores_rest [of ds main rest ?f1 x d' ?rows] more d1' obtain stores tables where
    ih: "map (attached x) rest = map Some stores"
        "\<forall>db \<in> set rest. engine_path db \<noteq> Some main"
        "map tbl_games stores = map Some tables"
        "falsy ds \<longrightarrow> (\<forall>s \<in> set stores. games_DataSource s)"
        "d' = put main (Duck (?f1\<lparr>tbl_combined := Some (?rows @ selected ds tables)\<rparr>)) x"
    by auto
  have "d' = put main (Duck (empty_file\<lparr>tbl_combined := Some (selected ds (games # tables))\<rparr>)) x"
    using ih(5) by (simp add: selected_Cons)
  moreover have "map (attached x) dbs = map Some (src # stores)"
    using at ih(1) split by simp
  moreover have "\<forall>db' \<in> set dbs. engine_path db' \<noteq> Some main"
    using t ih(2) split by simp
  moreover have "map tbl_games (src # stores) = map Some (games # tables)"
    using games ih(3) by simp
  moreover have "falsy ds \<longrightarrow> (\<forall>s \<in> set (src # stores). games_DataSource s)"
    using col ih(4) by simp
  ultimately show ?thesis by blast
qed

subsection \<open>The copy\<close>

lemma copy_partitioned_None:
  assumes "copy_partitioned main outd d = (None, d')"
  shows "\<exists>f rows t.
           open_database d main = Inr f \<and> tbl_combined f = Some rows
         \<and> engine_path outd = Some t
         \<and> holds_nothing d t
         \<and> \<not> list_ex (\<lambda>(q, e). is_regular e \<and> below q t) (nodes d)
         \<and> d' = put t (Partitioned (partition_by rows)) d"
  using assms
  by (auto simp: copy_partitioned_def split: sum.splits option.splits if_splits)

lemma holds_nothing_node:
  "holds_nothing d t \<Longrightarrow> (q, e) \<in> set (nodes d) \<Longrightarrow> below t q \<Longrightarrow> q = t \<and> e = Partitioned []"
  by (auto simp: holds_nothing_def list_ex_iff)

subsection \<open>What a run can leave behind\<close>




subsection \<open>A run that succeeds\<close>

lemma export_to_parquet_steps:
  assumes "export_to_parquet args localeCompare d = (None, d')"
  shows "\<exists>ind outd main made cleared ready loaded.
           inDir args = Some ind \<and> outDir args = Some outd \<and> outDb args = Some main
         \<and> listed localeCompare d ind \<noteq> []
         \<and> mkdirSync outd (rmSync_recursive outd d) = Inr made
         \<and> rmSync_force main made = Inr cleared
         \<and> mkdirSync (dirname main) cleared = Inr ready
         \<and> export_stores (dataSource_or_key args) main True (listed localeCompare d ind) ready
             = (None, loaded)
         \<and> copy_partitioned main outd loaded = (None, d')"
  using assms
  by (auto simp: export_to_parquet_def Let_def falsy_def
           split: if_splits option.splits sum.splits prod.splits)

lemma export_success:
  assumes "export_to_parquet args localeCompare d = (None, d')"
  shows "\<exists>ind outd main t stores tables.
           inDir args = Some ind \<and> outDir args = Some outd \<and> outDb args = Some main
         \<and> engine_path outd = Some t
         \<and> listed localeCompare d ind \<noteq> []
         \<and> map (attached d) (listed localeCompare d ind) = map Some stores
         \<and> map (attached d') (listed localeCompare d ind) = map Some stores
         \<and> map tbl_games stores = map Some tables
         \<and> (falsy (dataSource_or_key args) \<longrightarrow> (\<forall>s \<in> set stores. games_DataSource s))
         \<and> file_at d' main
              = Some (Duck (empty_file\<lparr>tbl_combined := Some (selected (dataSource_or_key args) tables)\<rparr>))
         \<and> file_at d' t
              = Some (Partitioned (partition_by (selected (dataSource_or_key args) tables)))
         \<and> (\<forall>(q, e) \<in> set (nodes d'). below outd q \<or> below t q \<longrightarrow>
                q = main \<and> e = Duck (empty_file\<lparr>tbl_combined := Some (selected (dataSource_or_key args) tables)\<rparr>)
              \<or> q = t \<and> e = Partitioned (partition_by (selected (dataSource_or_key args) tables)))"
proof -
  let ?ds = "dataSource_or_key args"
  from export_to_parquet_steps [OF assms] obtain ind outd main made cleared ready loaded where
    args: "inDir args = Some ind" "outDir args = Some outd" "outDb args = Some main"
    and dbs: "listed localeCompare d ind \<noteq> []"
    and made: "mkdirSync outd (rmSync_recursive outd d) = Inr made"
    and cleared: "rmSync_force main made = Inr cleared"
    and ready: "mkdirSync (dirname main) cleared = Inr ready"
    and loop: "export_stores ?ds main True (listed localeCompare d ind) ready = (None, loaded)"
    and copy: "copy_partitioned main outd loaded = (None, d')"
    by blast
  let ?dbs = "listed localeCompare d ind"
  have nodes_ready: "nodes ready
      = filter (\<lambda>(q, e). q \<noteq> main) (filter (\<lambda>(q, e). \<not> below outd q) (nodes d))"
    using mkdirSync_Inr [OF made] rmSync_force_Inr [OF cleared] mkdirSync_Inr [OF ready]
    by (simp add: rmSync_recursive_def)
  have at_ready: "\<And>q. file_at ready q = (if q = main \<or> below outd q then None else file_at d q)"
    by (simp add: file_at_def nodes_ready map_of_filter_key del: filter_filter)
  then have none: "file_at ready main = None" by simp
  from export_stores_first [OF loop dbs none] obtain stores tables where
    st: "map (attached ready) ?dbs = map Some stores"
    and apart: "\<forall>db \<in> set ?dbs. engine_path db \<noteq> Some main"
    and tables: "map tbl_games stores = map Some tables"
    and col: "falsy ?ds \<longrightarrow> (\<forall>s \<in> set stores. games_DataSource s)"
    and loaded: "loaded = put main (Duck (empty_file\<lparr>tbl_combined := Some (selected ?ds tables)\<rparr>)) ready"
    by blast
  let ?rows = "selected ?ds tables"
  let ?main = "Duck (empty_file\<lparr>tbl_combined := Some ?rows\<rparr>)"
  have at_loaded_main: "file_at loaded main = Some ?main"
    by (simp add: loaded file_at_put)
  from copy_partitioned_None [OF copy] obtain f rows t where
    f: "open_database loaded main = Inr f" "tbl_combined f = Some rows"
    and t: "engine_path outd = Some t"
    and empty: "holds_nothing loaded t"
    and above: "\<not> list_ex (\<lambda>(q, e). is_regular e \<and> below q t) (nodes loaded)"
    and d': "d' = put t (Partitioned (partition_by rows)) loaded"
    by blast
  have "f = empty_file\<lparr>tbl_combined := Some ?rows\<rparr>"
    using f(1) open_database_Duck [OF at_loaded_main] by simp
  then have rows: "rows = ?rows" using f(2) by simp
  have t_main: "t \<noteq> main"
    using holds_nothing_node [OF empty file_at_in_nodes [OF at_loaded_main]] by (auto simp: below_refl)
  have out_main: "file_at d' main = Some ?main"
    using t_main at_loaded_main by (simp add: d' file_at_put)
  have out_t: "file_at d' t = Some (Partitioned (partition_by ?rows))"
    by (simp add: d' rows file_at_put)
  have stores_d: "\<And>db s. attached ready db = Some s \<Longrightarrow> attached d db = Some s"
    by (auto simp: attached_Some at_ready split: if_splits)
  have stores_d': "\<And>db s. attached ready db = Some s \<Longrightarrow> engine_path db \<noteq> Some main
                     \<Longrightarrow> attached d' db = Some s"
  proof -
    fix db s
    assume s: "attached ready db = Some s" and m: "engine_path db \<noteq> Some main"
    then obtain q where q: "engine_path db = Some q" "file_at ready q = Some (Duck s)"
      by (auto simp: attached_Some)
    then have "q \<noteq> main" using m by simp
    then have l: "file_at loaded q = Some (Duck s)" using q by (simp add: loaded file_at_put)
    have "q \<noteq> t"
      using holds_nothing_node [OF empty file_at_in_nodes [OF l]] by (auto simp: below_refl)
    then have "file_at d' q = Some (Duck s)" using l by (simp add: d' file_at_put)
    then show "attached d' db = Some s" using q by (auto simp: attached_Some)
  qed
  have each: "\<forall>db \<in> set ?dbs. attached d db = attached ready db \<and> attached d' db = attached ready db"
  proof
    fix db
    assume db: "db \<in> set ?dbs"
    then have "attached ready db \<in> set (map Some stores)"
      using st by (metis image_eqI list.set_map)
    then obtain s where "attached ready db = Some s" by auto
    then show "attached d db = attached ready db \<and> attached d' db = attached ready db"
      using stores_d stores_d' apart db by simp
  qed
  have st_d: "map (attached d) ?dbs = map Some stores"
    using st each by (metis (no_types, lifting) map_eq_conv)
  have st_d': "map (attached d') ?dbs = map Some stores"
    using st each by (metis (no_types, lifting) map_eq_conv)
  have node: "\<And>q e. (q, e) \<in> set (nodes d') \<Longrightarrow> below outd q \<or> below t q \<Longrightarrow>
                q = main \<and> e = ?main \<or> q = t \<and> e = Partitioned (partition_by ?rows)"
  proof -
    fix q e
    assume n: "(q, e) \<in> set (nodes d')" and b: "below outd q \<or> below t q"
    show "q = main \<and> e = ?main \<or> q = t \<and> e = Partitioned (partition_by ?rows)"
    proof (cases "q = t")
      case True
      then have "e = Partitioned (partition_by rows)" using n by (auto simp: d' put_def)
      then show ?thesis using True rows by simp
    next
      case False
      then have l: "(q, e) \<in> set (nodes loaded)" using n by (auto simp: d' put_def)
      show ?thesis
      proof (cases "q = main")
        case True
        then have "e = ?main" using l by (auto simp: loaded put_def)
        then show ?thesis using True by simp
      next
        case other: False
        then have r: "(q, e) \<in> set (nodes ready)" using l by (auto simp: loaded put_def)
        then have "\<not> below outd q" by (auto simp: nodes_ready)
        then have "below t q" using b by simp
        then show ?thesis using holds_nothing_node [OF empty l] False by simp
      qed
    qed
  qed
  then have clean: "\<forall>(q, e) \<in> set (nodes d'). below outd q \<or> below t q \<longrightarrow>
                q = main \<and> e = ?main \<or> q = t \<and> e = Partitioned (partition_by ?rows)"
    by auto
  show ?thesis
    using args t dbs st_d st_d' tables col out_main out_t clean by blast
qed


subsection \<open>A second run\<close>











subsection \<open>The small consolidation\<close>

lemma fixture_engine_in: "engine_path [''in'', ''a.duckdb''] = Some [''in'', ''a.duckdb'']"
  by (simp add: engine_path_def render_def sqlPath_def sqlStringLiteral_def segments_def
      quote_def sql_string_constant_def)

lemma fixture_engine_out: "engine_path [''out''] = Some [''out'']"
  by (simp add: engine_path_def render_def sqlPath_def sqlStringLiteral_def segments_def
      quote_def sql_string_constant_def)

lemma fixture_tree: "readdir_tree [[''a.duckdb'']] = [File ''a.duckdb'']"
  by (subst readdir_tree.simps) simp

lemma fixture_listed: "listed no_order one_store [''in''] = [[''in'', ''a.duckdb'']]"
  by (simp add: listed_def regular_below_def one_store_def fixture_tree sort_with_def
      endsWith_def toLowerCase_def join_def)


lemma fixture_where:
  "export_where game_2020" "\<not> export_where game_1400" "\<not> export_where blank_game"
  by (simp_all add: export_where_iff game_2020_def game_1400_def blank_game_def)

lemma fixture_args:
  "inDir (consolidate_args ds k) = Some [''in'']"
  "outDir (consolidate_args ds k) = Some [''out'']"
  "outDb (consolidate_args ds k) = Some [''work'', ''combined.duckdb'']"
  by (simp_all add: consolidate_args_def)

lemma fixture_store:
  "tbl_games store_a = Some [game_2020, game_1400, blank_game]"
  "games_DataSource store_a"
  "tbl_combined empty_file = None"
  by (simp_all add: store_a_def empty_file_def)

lemma fixture_run:
  "export_to_parquet (consolidate_args ds k) no_order one_store =
     (None,
      \<lparr>nodes =
         [([''out''],
             Partitioned (partition_by
               [select_row (label_of (dataSource_or_key (consolidate_args ds k))) game_2020])),
          ([''work'', ''combined.duckdb''],
             Duck (empty_file\<lparr>tbl_combined :=
               Some [select_row (label_of (dataSource_or_key (consolidate_args ds k))) game_2020]\<rparr>)),
          ([''in'', ''a.duckdb''], Duck store_a)],
       folders = [[''work''], [''out'']]\<rparr>)"
  unfolding export_to_parquet_def
  apply (simp add: fixture_args falsy_def fixture_listed Let_def)
  apply (simp add: one_store_def
      rmSync_recursive_def mkdirSync_def rmSync_force_def is_directory_def dirname_def
      attachAndSelect_def open_database_def file_at_def put_def attach_def fixture_engine_in
      fixture_store select_from_src_ok fixture_where copy_partitioned_def fixture_engine_out
      holds_nothing_def)
  done


subsection \<open>What the output depends on\<close>



lemma combined_at_Duck: "file_at d p = Some (Duck f) \<Longrightarrow> combined_at d p = tbl_combined f"
  by (simp add: combined_at_def)

lemma fixture_attached: "attached one_store [''in'', ''a.duckdb''] = Some store_a"
  by (simp add: attached_def fixture_engine_in file_at_def one_store_def)

lemma fixture_attached_leftover: "attached leftover [''in'', ''a.duckdb''] = Some store_a"
  by (simp add: attached_def fixture_engine_in file_at_def leftover_def)

lemma fixture_selected:
  "selected ds [[game_2020, game_1400, blank_game]] = [select_row (label_of ds) game_2020]"
  by (simp add: selected_def fixture_where)

text \<open>
  C5. In a consolidation that ends without an error, the table \<^verbatim>\<open>combined\<close> of the working
  database holds the selected columns of exactly those rows of the listed stores, in the
  order of the listing, whose \<^verbatim>\<open>UTCDate\<close> is not NULL and has a year of at least 1500, and
  the partition directories written into the output directory hold exactly the rows of
  \<^verbatim>\<open>combined\<close>; no row of the output has a date that is missing or earlier, whatever the
  other columns of the store rows are. The stores are the database files that \<^verbatim>\<open>ATTACH\<close>
  finds, on the disk as it was before the run, for the listed paths.
\<close>

theorem C5_date_filter:
  assumes "export_to_parquet args localeCompare d = (None, d')"
  shows "\<exists>ind outd main t stores tables rows.
           inDir args = Some ind \<and> outDir args = Some outd \<and> outDb args = Some main
         \<and> engine_path outd = Some t
         \<and> map (attached d) (listed localeCompare d ind) = map Some stores
         \<and> map tbl_games stores = map Some tables
         \<and> rows = map (select_row (label_of (dataSource_or_key args)))
                    (filter (\<lambda>g. \<exists>dt. UTCDate g = Some dt \<and> 1500 \<le> date_year dt) (concat tables))
         \<and> combined_at d' main = Some rows
         \<and> file_at d' t = Some (Partitioned (partition_by rows))
         \<and> (\<forall>r. (\<exists>k rs. (k, rs) \<in> set (partition_by rows) \<and> r \<in> set rs) \<longleftrightarrow> r \<in> set rows)
         \<and> (\<forall>r \<in> set rows. \<exists>dt. UTCDate r = Some dt \<and> 1500 \<le> date_year dt)"
proof -
  let ?ds = "dataSource_or_key args"
  from export_success [OF assms] obtain ind outd main t stores tables where
    args: "inDir args = Some ind" "outDir args = Some outd" "outDb args = Some main"
    and t: "engine_path outd = Some t"
    and st: "map (attached d) (listed localeCompare d ind) = map Some stores"
    and tb: "map tbl_games stores = map Some tables"
    and at_main: "file_at d' main = Some (Duck (empty_file\<lparr>tbl_combined := Some (selected ?ds tables)\<rparr>))"
    and at_t: "file_at d' t = Some (Partitioned (partition_by (selected ?ds tables)))"
    by blast
  let ?rows = "selected ?ds tables"
  have "export_where = (\<lambda>g. \<exists>dt. UTCDate g = Some dt \<and> 1500 \<le> date_year dt)"
    by (rule ext) (rule export_where_iff)
  then have rows: "?rows = map (select_row (label_of ?ds))
                    (filter (\<lambda>g. \<exists>dt. UTCDate g = Some dt \<and> 1500 \<le> date_year dt) (concat tables))"
    by (simp add: selected_def)
  have comb: "combined_at d' main = Some ?rows"
    using combined_at_Duck [OF at_main] by simp
  have parts: "\<forall>r. (\<exists>k rs. (k, rs) \<in> set (partition_by ?rows) \<and> r \<in> set rs) \<longleftrightarrow> r \<in> set ?rows"
    using partition_rows by blast
  have dated: "\<forall>r \<in> set ?rows. \<exists>dt. UTCDate r = Some dt \<and> 1500 \<le> date_year dt"
    by (auto simp: selected_def select_row_def export_where_iff)
  show ?thesis
    using args t st tb rows comb at_t parts dated by blast
qed

text \<open>
  A run of C5: of a game of 2020, a game of 1400 and an undated game in the one store,
  the game of 2020 alone reaches \<^verbatim>\<open>combined\<close> and the partition directories.
\<close>

theorem C5_date_filter_witness:
  "fst (export_to_parquet (consolidate_args None None) no_order one_store) = None
   \<and> map (attached one_store) (listed no_order one_store [''in'']) = [Some store_a]
   \<and> tbl_games store_a = Some [game_2020, game_1400, blank_game]
   \<and> combined_at (snd (export_to_parquet (consolidate_args None None) no_order one_store))
        [''work'', ''combined.duckdb'']
       = Some [select_row DataSource game_2020]
   \<and> file_at (snd (export_to_parquet (consolidate_args None None) no_order one_store)) [''out'']
       = Some (Partitioned (partition_by [select_row DataSource game_2020]))"
proof -
  let ?args = "consolidate_args None None"
  let ?d' = "snd (export_to_parquet ?args no_order one_store)"
  have ok: "fst (export_to_parquet ?args no_order one_store) = None"
    by (simp add: fixture_run)
  then have run: "export_to_parquet ?args no_order one_store = (None, ?d')"
    by (metis prod.collapse)
  from C5_date_filter [OF run] obtain ind outd main t stores tables rows where
    args: "inDir ?args = Some ind" "outDir ?args = Some outd" "outDb ?args = Some main"
    and t: "engine_path outd = Some t"
    and st: "map (attached one_store) (listed no_order one_store ind) = map Some stores"
    and tb: "map tbl_games stores = map Some tables"
    and rows: "rows = map (select_row (label_of (dataSource_or_key ?args)))
                    (filter (\<lambda>g. \<exists>dt. UTCDate g = Some dt \<and> 1500 \<le> date_year dt) (concat tables))"
    and comb: "combined_at ?d' main = Some rows"
    and parts: "file_at ?d' t = Some (Partitioned (partition_by rows))"
    by blast
  have ind: "ind = [''in'']" and main: "main = [''work'', ''combined.duckdb'']"
    and outd: "outd = [''out'']"
    using args by (simp_all add: fixture_args)
  have t': "t = [''out'']" using t outd by (simp add: fixture_engine_out)
  have listing: "map (attached one_store) (listed no_order one_store [''in'']) = [Some store_a]"
    by (simp add: fixture_listed fixture_attached)
  then have "stores = [store_a]" using st ind by auto
  then have "tables = [[game_2020, game_1400, blank_game]]" using tb by (auto simp: fixture_store)
  moreover have "(\<lambda>g. \<exists>dt. UTCDate g = Some dt \<and> 1500 \<le> date_year dt) = export_where"
    by (rule ext) (simp add: export_where_iff)
  moreover have "label_of (dataSource_or_key ?args) = DataSource"
    by (rule ext) (simp add: label_of_def dataSource_or_key_def consolidate_args_def)
  ultimately have "rows = [select_row DataSource game_2020]"
    using rows by (simp add: fixture_where)
  then show ?thesis
    using ok listing comb parts main t' by (simp add: fixture_store)
qed

text \<open>
  C6 (amended). The label is \<^verbatim>\<open>--dataSource\<close> or, when that option is absent, \<^verbatim>\<open>--key\<close>.
  In a consolidation that ends without an error, a label that is not empty is the
  \<^verbatim>\<open>DataSource\<close> of every exported row, whatever the stores hold; with no label, or an empty
  one, every listed store has the column \<^verbatim>\<open>DataSource\<close> and every exported row carries the
  \<^verbatim>\<open>DataSource\<close> of the store row it was selected from. The exported rows are those of
  \<^verbatim>\<open>combined\<close>, which are also the rows of the partition directories.
\<close>

theorem C6_label_or_column:
  assumes "export_to_parquet args localeCompare d = (None, d')"
  shows "\<exists>ind outd main t stores tables rows.
           inDir args = Some ind \<and> outDir args = Some outd \<and> outDb args = Some main
         \<and> engine_path outd = Some t
         \<and> map (attached d) (listed localeCompare d ind) = map Some stores
         \<and> map tbl_games stores = map Some tables
         \<and> combined_at d' main = Some rows
         \<and> file_at d' t = Some (Partitioned (partition_by rows))
         \<and> (\<forall>l. (dataSource args = Some l \<or> dataSource args = None \<and> key args = Some l) \<and> l \<noteq> []
                \<longrightarrow> (\<forall>r \<in> set rows. DataSource r = Some l))
         \<and> (dataSource args = Some [] \<or> dataSource args = None \<and> falsy (key args)
                \<longrightarrow> (\<forall>s \<in> set stores. games_DataSource s)
                  \<and> map DataSource rows = map DataSource (filter export_where (concat tables)))"
proof -
  let ?ds = "dataSource_or_key args"
  from export_success [OF assms] obtain ind outd main t stores tables where
    args: "inDir args = Some ind" "outDir args = Some outd" "outDb args = Some main"
    and t: "engine_path outd = Some t"
    and st: "map (attached d) (listed localeCompare d ind) = map Some stores"
    and tb: "map tbl_games stores = map Some tables"
    and col: "falsy ?ds \<longrightarrow> (\<forall>s \<in> set stores. games_DataSource s)"
    and at_main: "file_at d' main = Some (Duck (empty_file\<lparr>tbl_combined := Some (selected ?ds tables)\<rparr>))"
    and at_t: "file_at d' t = Some (Partitioned (partition_by (selected ?ds tables)))"
    by blast
  let ?rows = "selected ?ds tables"
  have comb: "combined_at d' main = Some ?rows"
    using combined_at_Duck [OF at_main] by simp
  have column: "map DataSource ?rows = map (label_of ?ds) (filter export_where (concat tables))"
    by (simp add: selected_def select_row_def comp_def)
  have fixed: "\<forall>l. (dataSource args = Some l \<or> dataSource args = None \<and> key args = Some l) \<and> l \<noteq> []
                \<longrightarrow> (\<forall>r \<in> set ?rows. DataSource r = Some l)"
  proof (intro allI impI ballI)
    fix l r
    assume l: "(dataSource args = Some l \<or> dataSource args = None \<and> key args = Some l) \<and> l \<noteq> []"
      and r: "r \<in> set ?rows"
    have "?ds = Some l" using l by (auto simp: dataSource_or_key_def)
    then have "label_of ?ds = (\<lambda>g. Some l)" using l by (simp add: label_of_def fun_eq_iff)
    then show "DataSource r = Some l" using r by (auto simp: selected_def select_row_def)
  qed
  have kept: "dataSource args = Some [] \<or> dataSource args = None \<and> falsy (key args)
                \<longrightarrow> (\<forall>s \<in> set stores. games_DataSource s)
                  \<and> map DataSource ?rows = map DataSource (filter export_where (concat tables))"
  proof
    assume none: "dataSource args = Some [] \<or> dataSource args = None \<and> falsy (key args)"
    then have "falsy ?ds" by (auto simp: dataSource_or_key_def falsy_def)
    then have "\<forall>s \<in> set stores. games_DataSource s" using col by simp
    moreover have "label_of ?ds = DataSource"
      using none
      by (auto simp: dataSource_or_key_def label_of_def falsy_def fun_eq_iff split: option.splits)
    ultimately show "(\<forall>s \<in> set stores. games_DataSource s)
                  \<and> map DataSource ?rows = map DataSource (filter export_where (concat tables))"
      using column by simp
  qed
  show ?thesis
    using args t st tb comb at_t fixed kept by blast
qed

text \<open>
  Two runs of C6 over the store whose rows carry \<^verbatim>\<open>lichess\<close>: with \<^verbatim>\<open>--dataSource archive\<close>
  the exported row carries \<^verbatim>\<open>archive\<close>, with an empty \<^verbatim>\<open>--dataSource\<close> it carries what
  the store holds.
\<close>

theorem C6_label_or_column_witness:
  "fst (export_to_parquet (consolidate_args (Some ''archive'') None) no_order one_store) = None
   \<and> fst (export_to_parquet (consolidate_args (Some []) None) no_order one_store) = None
   \<and> dataSource (consolidate_args (Some ''archive'') None) = Some ''archive''
   \<and> dataSource (consolidate_args (Some []) None) = Some []
   \<and> DataSource game_2020 = Some ''lichess''
   \<and> map_option (map DataSource)
        (combined_at (snd (export_to_parquet (consolidate_args (Some ''archive'') None) no_order one_store))
           [''work'', ''combined.duckdb''])
       = Some [Some ''archive'']
   \<and> map_option (map DataSource)
        (combined_at (snd (export_to_parquet (consolidate_args (Some []) None) no_order one_store))
           [''work'', ''combined.duckdb''])
       = Some (map DataSource (filter export_where [game_2020, game_1400, blank_game]))"
proof -
  let ?args = "consolidate_args (Some ''archive'') None"
  let ?none = "consolidate_args (Some []) None"
  let ?d' = "snd (export_to_parquet ?args no_order one_store)"
  let ?e' = "snd (export_to_parquet ?none no_order one_store)"
  have ok: "fst (export_to_parquet ?args no_order one_store) = None"
    and ok': "fst (export_to_parquet ?none no_order one_store) = None"
    by (simp_all add: fixture_run)
  have run: "export_to_parquet ?args no_order one_store = (None, ?d')"
    using ok by (metis prod.collapse)
  have run': "export_to_parquet ?none no_order one_store = (None, ?e')"
    using ok' by (metis prod.collapse)
  have d: "dataSource ?args = Some ''archive''" by (simp add: consolidate_args_def)
  have d': "dataSource ?none = Some []" by (simp add: consolidate_args_def)
  have s: "DataSource game_2020 = Some ''lichess''" by (simp add: game_2020_def)
  have listing: "map (attached one_store) (listed no_order one_store [''in'']) = [Some store_a]"
    by (simp add: fixture_listed fixture_attached)
  from C6_label_or_column [OF run] obtain main rows where
    main: "outDb ?args = Some main"
    and comb: "combined_at ?d' main = Some rows"
    and fixed: "\<forall>l. (dataSource ?args = Some l \<or> dataSource ?args = None \<and> key ?args = Some l) \<and> l \<noteq> []
                  \<longrightarrow> (\<forall>r \<in> set rows. DataSource r = Some l)"
    by blast
  have all: "\<forall>r \<in> set rows. DataSource r = Some ''archive''" using fixed d by simp
  have m: "main = [''work'', ''combined.duckdb'']" using main by (simp add: fixture_args)
  have "combined_at ?d' [''work'', ''combined.duckdb'']
          = Some [select_row (label_of (dataSource_or_key ?args)) game_2020]"
    by (simp add: fixture_run combined_at_def file_at_def)
  then obtain x where "rows = [x]" using comb m by auto
  then have "map DataSource rows = [Some ''archive'']" using all by simp
  then have one: "map_option (map DataSource) (combined_at ?d' [''work'', ''combined.duckdb''])
       = Some [Some ''archive'']"
    using comb m by simp
  from C6_label_or_column [OF run'] obtain ind main' stores tables rows' where
    ind: "inDir ?none = Some ind"
    and main': "outDb ?none = Some main'"
    and st: "map (attached one_store) (listed no_order one_store ind) = map Some stores"
    and tb: "map tbl_games stores = map Some tables"
    and comb': "combined_at ?e' main' = Some rows'"
    and kept: "dataSource ?none = Some [] \<or> dataSource ?none = None \<and> falsy (key ?none)
                  \<longrightarrow> (\<forall>s \<in> set stores. games_DataSource s)
                    \<and> map DataSource rows' = map DataSource (filter export_where (concat tables))"
    by blast
  have "ind = [''in'']" using ind by (simp add: fixture_args)
  then have "stores = [store_a]" using st listing by auto
  then have tables: "tables = [[game_2020, game_1400, blank_game]]"
    using tb by (auto simp: fixture_store)
  have m': "main' = [''work'', ''combined.duckdb'']" using main' by (simp add: fixture_args)
  have "map DataSource rows' = map DataSource (filter export_where (concat tables))"
    using kept d' by blast
  then have two: "map_option (map DataSource) (combined_at ?e' [''work'', ''combined.duckdb''])
       = Some (map DataSource (filter export_where [game_2020, game_1400, blank_game]))"
    using comb' m' tables by simp
  show ?thesis using ok ok' d d' s one two by blast
qed

text \<open>
  C6 as stated fails in both halves. An empty \<^verbatim>\<open>--dataSource\<close> is supplied, yet the row
  keeps the \<^verbatim>\<open>DataSource\<close> of its store; and with no \<^verbatim>\<open>--dataSource\<close> at all but a
  \<^verbatim>\<open>--key\<close>, the row carries the key, not the \<^verbatim>\<open>DataSource\<close> of its store. Both runs end
  without an error.
\<close>

theorem C6_override_counterexample:
  "DataSource game_2020 = Some ''lichess''
   \<and> dataSource (consolidate_args (Some []) None) = Some []
   \<and> fst (export_to_parquet (consolidate_args (Some []) None) no_order one_store) = None
   \<and> map_option (map DataSource)
        (combined_at (snd (export_to_parquet (consolidate_args (Some []) None) no_order one_store))
           [''work'', ''combined.duckdb''])
       = Some [Some ''lichess'']
   \<and> dataSource (consolidate_args None (Some ''archive'')) = None
   \<and> fst (export_to_parquet (consolidate_args None (Some ''archive'')) no_order one_store) = None
   \<and> map_option (map DataSource)
        (combined_at (snd (export_to_parquet (consolidate_args None (Some ''archive'')) no_order one_store))
           [''work'', ''combined.duckdb''])
       = Some [Some ''archive'']"
proof -
  have ok: "\<And>ds k. fst (export_to_parquet (consolidate_args ds k) no_order one_store) = None"
    by (simp add: fixture_run)
  have comb: "\<And>ds k.
      combined_at (snd (export_to_parquet (consolidate_args ds k) no_order one_store))
        [''work'', ''combined.duckdb'']
      = Some [select_row (label_of (dataSource_or_key (consolidate_args ds k))) game_2020]"
    by (simp add: fixture_run combined_at_def file_at_def)
  show ?thesis
    by (simp add: ok comb)
       (simp add: select_row_def label_of_def dataSource_or_key_def consolidate_args_def
          game_2020_def)
qed



section \<open>Parse errors\<close>

lemma matches_parse_error: "matches (parse_error_update f g) = matches g"
  by (rule ext) (simp add: matches_def)

lemma lateral_parse_error: "lateral owp (parse_error_update f g) = lateral owp g"
  by (simp add: lateral_def candidates_def matches_parse_error)

lemma classify_row_parse_error:
  "classify_row owp (parse_error_update f g) = parse_error_update f (classify_row owp g)"
  by (auto simp: classify_row_def lateral_parse_error split: list.splits)

lemma export_where_parse_error: "export_where (parse_error_update f g) = export_where g"
  by (simp add: export_where_def)

lemma label_parse_error:
  "eval_dataSourceSelect line = Some label \<Longrightarrow> label (parse_error_update f g) = label g"
  by (auto simp: eval_dataSourceSelect_def split: option.splits if_splits)

text \<open>
  C3 (amended). The \<^verbatim>\<open>parse_error\<close> of a record has no part in enrichment or export:
  changing it in any way changes neither which records the classifier updates nor what it
  writes, nor which rows the export selects nor their columns. A record with a parse error
  is classified when its \<^verbatim>\<open>Opening\<close> is NULL and an entry matches, and exported when its
  \<^verbatim>\<open>UTCDate\<close> passes the date filter, like any other.
\<close>

theorem C3_parse_error_ignored:
  "classify_openings entries (map (parse_error_update f) games)
      = map (parse_error_update f) (classify_openings entries games)
   \<and> select_from_src line (map (parse_error_update f) games) = select_from_src line games"
proof -
  have "classify_openings entries (map (parse_error_update f) games)
      = map (parse_error_update f) (classify_openings entries games)"
    by (simp add: classify_openings_rows classify_row_parse_error comp_def)
  moreover have "select_from_src line (map (parse_error_update f) games) = select_from_src line games"
  proof (cases "eval_dataSourceSelect line")
    case None
    then show ?thesis by (simp add: select_from_src_def)
  next
    case (Some label)
    have row: "\<And>g. select_row label (parse_error_update f g) = select_row label g"
      using label_parse_error [OF Some] by (simp add: select_row_def)
    have "map (select_row label) (filter export_where (map (parse_error_update f) games))
        = map (select_row label) (filter export_where games)"
      by (induction games) (simp_all add: export_where_parse_error row)
    then show ?thesis using Some by (simp add: select_from_src_def)
  qed
  ultimately show ?thesis by simp
qed

text \<open>
  C3 as stated fails: a game with a parse error, no opening and a date in 2020 is
  classified by the update and selected by the export.
\<close>

theorem C3_parse_error_counterexample:
  "parse_error flawed_game = Some ''illegal move''
   \<and> classify_openings [entry ''C20'' ''Kings Pawn Game'' ''e2e4 e7e5'' ''1. e4 e5''] [flawed_game]
       = [flawed_game\<lparr>ECO := Some ''C20'', Opening := Some ''Kings Pawn Game''\<rparr>]
   \<and> select_from_src (dataSourceSelect None) [flawed_game]
       = Inr [select_row DataSource flawed_game]"
proof -
  have m: "matches flawed_game (with_ply (entry ''C20'' ''Kings Pawn Game'' ''e2e4 e7e5'' ''1. e4 e5''))"
    by (simp add: matches_def holds_def CONTAINS_def with_ply_def entry_def flawed_game_def)
  have c: "classify_row (openings_with_ply [entry ''C20'' ''Kings Pawn Game'' ''e2e4 e7e5'' ''1. e4 e5'']) flawed_game
      = flawed_game\<lparr>ECO := Some ''C20'', Opening := Some ''Kings Pawn Game''\<rparr>"
    using m
    by (simp add: classify_row_def lateral_def candidates_def openings_with_ply_def
        order_by_opening_ply_desc_def)
       (simp add: flawed_game_def blank_game_def with_ply_def entry_def)
  have w: "export_where flawed_game"
    by (simp add: export_where_iff flawed_game_def)
  have l: "label_of None = DataSource" by (rule ext) (simp add: label_of_def)
  show ?thesis
    using c w l
    by (simp add: classify_openings_rows select_from_src_ok)
       (simp add: flawed_game_def)
qed

end
